theory Spec2Isabelle
  imports Complex_Main "HOL-Library.Log_Nat"
begin

section \<open>The todo service and its controller\<close>

text \<open>
  The development embeds \<^verbatim>\<open>src/todo/todo.service.ts\<close> (class \<^verbatim>\<open>TodoService\<close>), the entity
  and DTO classes it uses, and the controller that maps the service's results to HTTP
  outcomes. The service object is a record of its two private fields; every method takes
  the service and returns the service after the call together with the method's result.
  The methods hand out the stored objects and the array themselves; the controller, their
  only caller, does not write to what it gets, so a result is the value it has when it is
  returned. The array is a list of any length: the model does not know of memory running
  out.
\<close>

subsection \<open>JavaScript numbers and dates\<close>

text \<open>
  An id is a TypeScript \<^verbatim>\<open>number\<close>, a binary64 floating-point number: \<open>NaN\<close>, one of the
  two infinities, or a finite number, which is held as its exact rational value (the two
  zeros, which \<^verbatim>\<open>===\<close> and \<^verbatim>\<open><\<close> do not tell apart, are one).
\<close>

datatype number = NaN | NegInfinity | PosInfinity | Fin rat

text \<open>\<^verbatim>\<open>a === b\<close> on numbers: \<open>NaN\<close> is equal to nothing, itself included.\<close>

definition strict_eq :: "number \<Rightarrow> number \<Rightarrow> bool" where
  "strict_eq a b = (a \<noteq> NaN \<and> b \<noteq> NaN \<and> a = b)"

text \<open>\<^verbatim>\<open>a < b\<close> on numbers: false as soon as one side is \<open>NaN\<close>.\<close>

fun num_less :: "number \<Rightarrow> number \<Rightarrow> bool" where
  "num_less NaN b = False"
| "num_less a NaN = False"
| "num_less a NegInfinity = False"
| "num_less NegInfinity b = True"
| "num_less PosInfinity b = False"
| "num_less (Fin x) PosInfinity = True"
| "num_less (Fin x) (Fin y) = (x < y)"

text \<open>
  Arithmetic rounds its exact result to the nearest binary64 number, ties to the even
  significand. \<open>pow2 e\<close> is \<open>2\<close> to the power \<open>e\<close>; \<open>exponent x\<close> is the binary exponent of
  \<open>x \<noteq> 0\<close>, the \<open>e\<close> with \<open>pow2 e \<le> \<bar>x\<bar> < pow2 (e + 1)\<close>. A significand has 53 bits, so the
  numbers around \<open>x\<close> are \<open>pow2 (e - 52)\<close> apart, where \<open>e\<close> is not taken below \<open>-1022\<close>, the
  exponent of the subnormal numbers; a result of magnitude \<open>pow2 1024\<close> or more is an
  infinity.
\<close>

definition pow2 :: "int \<Rightarrow> rat" where
  "pow2 e = (if 0 \<le> e then 2 ^ nat e else 1 / 2 ^ nat (- e))"

definition exponent :: "rat \<Rightarrow> int" where
  "exponent x =
     (if 1 \<le> \<bar>x\<bar> then bitlen \<lfloor>\<bar>x\<bar>\<rfloor> - 1 else - bitlen (\<lceil>1 / \<bar>x\<bar>\<rceil> - 1))"

definition round_half_even :: "rat \<Rightarrow> int" where
  "round_half_even y =
     (let n = \<lfloor>y\<rfloor>; d = y - of_int n
      in if d < 1 / 2 then n else if 1 / 2 < d then n + 1 else if even n then n else n + 1)"

definition binary64 :: "rat \<Rightarrow> number" where
  "binary64 x =
     (if x = 0 then Fin 0
      else let e = max (exponent x) (- 1022);
               ulp = pow2 (e - 52);
               y = of_int (round_half_even (x / ulp)) * ulp
           in if pow2 1024 \<le> \<bar>y\<bar> then (if 0 < x then PosInfinity else NegInfinity)
              else Fin y)"

text \<open>
  \<^verbatim>\<open>a + 1\<close>, the new value that \<^verbatim>\<open>a++\<close> stores. It is \<open>a + 1\<close> exactly while that is an
  integer up to \<open>2 ^ 53\<close>; \<open>2 ^ 53 + 1\<close> is no binary64 number and rounds to \<open>2 ^ 53\<close>.
\<close>

fun num_succ :: "number \<Rightarrow> number" where
  "num_succ (Fin x) = binary64 (x + 1)"
| "num_succ a = a"

text \<open>The integer at which a counter that adds 1 stops.\<close>

definition counter_limit :: nat where
  "counter_limit = 2 ^ 53"

text \<open>
  A \<^verbatim>\<open>Date\<close> is its time value, the milliseconds since the epoch. \<^verbatim>\<open>new Date()\<close> reads the
  system clock; each reading is an argument of the method that takes it.
\<close>

type_synonym date = int

subsection \<open>DTOs and the entity\<close>

text \<open>
  \<^verbatim>\<open>CreateTodoDto\<close> has one required field, the only property that \<open>create\<close> reads.

  \<^verbatim>\<open>UpdateTodoDto\<close> declares two optional fields, \<open>title\<close> and \<open>isCompleted\<close>; \<open>None\<close> is a
  property that the object does not have. The declaration is a compile-time type only:
  the object that \<open>update\<close> gets is the request body as it was parsed, nothing validates
  it, and \<^verbatim>\<open>Object.assign\<close> copies every own property it has. The properties under the
  entity's other keys are \<open>own_id\<close>, \<open>own_createdAt\<close> and \<open>own_updatedAt\<close>. A property
  under a key that the entity does not have lands in a property that the service never
  reads, and is left out; a value is of the type of the entity's field.
\<close>

record CreateTodoDto =
  title :: string

record UpdateTodoDto =
  title :: "string option"
  isCompleted :: "bool option"
  own_id :: "number option"
  own_createdAt :: "date option"
  own_updatedAt :: "date option"

text \<open>The objects of the declared shape: a title or none, a completion flag or none.\<close>

definition patch :: "string option \<Rightarrow> bool option \<Rightarrow> UpdateTodoDto" where
  "patch t c = \<lparr>title = t, isCompleted = c,
     own_id = None, own_createdAt = None, own_updatedAt = None\<rparr>"

text \<open>The entity's field \<^verbatim>\<open>id\<close> is \<open>todo_id\<close> here, \<open>id\<close> being HOL's identity function.\<close>

record Todo =
  todo_id :: number
  title :: string
  isCompleted :: bool
  createdAt :: date
  updatedAt :: date

subsection \<open>The service\<close>

record TodoService =
  todos :: "Todo list"
  idCounter :: number

text \<open>The field initialisers: \<^verbatim>\<open>todos = []\<close> and \<^verbatim>\<open>idCounter = 1\<close>.\<close>

definition TodoService_new :: TodoService where
  "TodoService_new = \<lparr>todos = [], idCounter = Fin 1\<rparr>"

text \<open>
  \<^verbatim>\<open>create\<close> evaluates \<^verbatim>\<open>new Date()\<close> twice, once for each timestamp: \<open>now1\<close> and \<open>now2\<close> are
  the two readings, in the order of the object literal.
\<close>

definition TodoService_create ::
  "TodoService \<Rightarrow> CreateTodoDto \<Rightarrow> date \<Rightarrow> date \<Rightarrow> TodoService \<times> Todo" where
  "TodoService_create s createTodoDto now1 now2 =
     (let todo = \<lparr>todo_id = idCounter s,
                  title = CreateTodoDto.title createTodoDto,
                  isCompleted = False,
                  createdAt = now1,
                  updatedAt = now2\<rparr>
      in (s\<lparr>todos := todos s @ [todo], idCounter := num_succ (idCounter s)\<rparr>, todo))"

definition TodoService_findAll :: "TodoService \<Rightarrow> Todo list" where
  "TodoService_findAll s = todos s"

text \<open>\<^verbatim>\<open>Array.prototype.find\<close>: the first element that satisfies the predicate, or \<^verbatim>\<open>undefined\<close>.\<close>

definition TodoService_findOne :: "TodoService \<Rightarrow> number \<Rightarrow> Todo option" where
  "TodoService_findOne s k = find (\<lambda>todo. strict_eq (todo_id todo) k) (todos s)"

text \<open>
  \<^verbatim>\<open>Object.assign(todo, updateTodoDto, { updatedAt: new Date() })\<close> copies the own
  properties of the DTO, then the new timestamp, onto the object that \<^verbatim>\<open>find\<close> returned:
  an \<open>updatedAt\<close> of the DTO is overwritten by the timestamp, an \<open>id\<close> or a \<open>createdAt\<close> of
  the DTO stays.
\<close>

definition Object_assign :: "Todo \<Rightarrow> UpdateTodoDto \<Rightarrow> date \<Rightarrow> Todo" where
  "Object_assign todo updateTodoDto now =
     (let t1 = (case UpdateTodoDto.title updateTodoDto of
                  None \<Rightarrow> todo | Some x \<Rightarrow> todo\<lparr>title := x\<rparr>);
          t2 = (case UpdateTodoDto.isCompleted updateTodoDto of
                  None \<Rightarrow> t1 | Some b \<Rightarrow> t1\<lparr>isCompleted := b\<rparr>);
          t3 = (case own_id updateTodoDto of
                  None \<Rightarrow> t2 | Some i \<Rightarrow> t2\<lparr>todo_id := i\<rparr>);
          t4 = (case own_createdAt updateTodoDto of
                  None \<Rightarrow> t3 | Some d \<Rightarrow> t3\<lparr>createdAt := d\<rparr>);
          t5 = (case own_updatedAt updateTodoDto of
                  None \<Rightarrow> t4 | Some d \<Rightarrow> t4\<lparr>updatedAt := d\<rparr>)
      in t5\<lparr>updatedAt := now\<rparr>)"

text \<open>
  The object is mutated where it sits in the array: the first element that satisfies the
  predicate of \<^verbatim>\<open>find\<close> is replaced, every other position keeps its element.
\<close>

fun mutate_first :: "('a \<Rightarrow> bool) \<Rightarrow> ('a \<Rightarrow> 'a) \<Rightarrow> 'a list \<Rightarrow> 'a list" where
  "mutate_first P f [] = []"
| "mutate_first P f (x # xs) = (if P x then f x # xs else x # mutate_first P f xs)"

definition TodoService_update ::
  "TodoService \<Rightarrow> number \<Rightarrow> UpdateTodoDto \<Rightarrow> date \<Rightarrow> TodoService \<times> Todo option" where
  "TodoService_update s k updateTodoDto now =
     (case TodoService_findOne s k of
        None \<Rightarrow> (s, None)
      | Some todo \<Rightarrow>
          (s\<lparr>todos := mutate_first (\<lambda>todo. strict_eq (todo_id todo) k)
                         (\<lambda>todo. Object_assign todo updateTodoDto now) (todos s)\<rparr>,
           Some (Object_assign todo updateTodoDto now)))"

definition TodoService_remove :: "TodoService \<Rightarrow> number \<Rightarrow> TodoService \<times> bool" where
  "TodoService_remove s k =
     (let initialLength = length (todos s);
          s' = s\<lparr>todos := filter (\<lambda>todo. \<not> strict_eq (todo_id todo) k) (todos s)\<rparr>
      in (s', length (todos s') \<noteq> initialLength))"

subsection \<open>The controller\<close>

text \<open>
  A handler either returns its value or throws Nest's \<^verbatim>\<open>NotFoundException\<close>, the HTTP
  exception whose status is 404. The path parameter \<^verbatim>\<open>id\<close> arrives as a string, and the
  handlers pass \<^verbatim>\<open>+id\<close> to the service: the conversion of a string to a number by unary
  plus belongs to the language, and is the parameter \<open>toNumber\<close> of the handlers. The
  template literal puts the string itself into the message.
\<close>

datatype HttpException = NotFoundException string

fun getStatus :: "HttpException \<Rightarrow> nat" where
  "getStatus (NotFoundException message) = 404"

record DeleteResult =
  message :: string

definition TodoController_findAll :: "TodoService \<Rightarrow> Todo list" where
  "TodoController_findAll s = TodoService_findAll s"

definition TodoController_findOne ::
  "(string \<Rightarrow> number) \<Rightarrow> TodoService \<Rightarrow> string \<Rightarrow> HttpException + Todo" where
  "TodoController_findOne toNumber s ident =
     (case TodoService_findOne s (toNumber ident) of
        None \<Rightarrow> Inl (NotFoundException (''Todo with ID '' @ ident @ '' not found''))
      | Some todo \<Rightarrow> Inr todo)"

definition TodoController_create ::
  "TodoService \<Rightarrow> CreateTodoDto \<Rightarrow> date \<Rightarrow> date \<Rightarrow> TodoService \<times> Todo" where
  "TodoController_create s createTodoDto now1 now2 =
     TodoService_create s createTodoDto now1 now2"

definition TodoController_update ::
  "(string \<Rightarrow> number) \<Rightarrow> TodoService \<Rightarrow> string \<Rightarrow> UpdateTodoDto \<Rightarrow> date
     \<Rightarrow> TodoService \<times> (HttpException + Todo)" where
  "TodoController_update toNumber s ident updateTodoDto now =
     (case TodoService_update s (toNumber ident) updateTodoDto now of
        (s', None) \<Rightarrow> (s', Inl (NotFoundException (''Todo with ID '' @ ident @ '' not found'')))
      | (s', Some todo) \<Rightarrow> (s', Inr todo))"

definition TodoController_remove ::
  "(string \<Rightarrow> number) \<Rightarrow> TodoService \<Rightarrow> string
     \<Rightarrow> TodoService \<times> (HttpException + DeleteResult)" where
  "TodoController_remove toNumber s ident =
     (case TodoService_remove s (toNumber ident) of
        (s', isRemoved) \<Rightarrow>
          if \<not> isRemoved
          then (s', Inl (NotFoundException (''Todo with ID '' @ ident @ '' not found'')))
          else (s', Inr \<lparr>message = ''Todo deleted successfully''\<rparr>))"

subsection \<open>Sequences of calls\<close>

text \<open>
  A client of the service makes one call after the other. \<open>run\<close> makes the calls of a list
  in order and returns the service at the end with the log of each call and its result.
\<close>

datatype call =
  Create CreateTodoDto date date
| FindAll
| FindOne number
| Update number UpdateTodoDto date
| Remove number

datatype reply =
  Created Todo
| Listed "Todo list"
| Found "Todo option"
| Updated "Todo option"
| Removed bool

fun invoke :: "TodoService \<Rightarrow> call \<Rightarrow> TodoService \<times> reply" where
  "invoke s (Create dto now1 now2) =
     (case TodoService_create s dto now1 now2 of (s', todo) \<Rightarrow> (s', Created todo))"
| "invoke s FindAll = (s, Listed (TodoService_findAll s))"
| "invoke s (FindOne k) = (s, Found (TodoService_findOne s k))"
| "invoke s (Update k dto now) =
     (case TodoService_update s k dto now of (s', r) \<Rightarrow> (s', Updated r))"
| "invoke s (Remove k) =
     (case TodoService_remove s k of (s', b) \<Rightarrow> (s', Removed b))"

fun run :: "TodoService \<Rightarrow> call list \<Rightarrow> TodoService \<times> (call \<times> reply) list" where
  "run s [] = (s, [])"
| "run s (c # cs) =
     (case invoke s c of (s', r) \<Rightarrow>
        (case run s' cs of (s'', es) \<Rightarrow> (s'', (c, r) # es)))"

text \<open>The ids of the records that the \<open>Create\<close> calls of a log returned, in order.\<close>

fun created_ids :: "(call \<times> reply) list \<Rightarrow> number list" where
  "created_ids [] = []"
| "created_ids ((c, Created todo) # es) = todo_id todo # created_ids es"
| "created_ids ((c, r) # es) = created_ids es"

subsection \<open>What a log says about the collection\<close>

text \<open>
  The specification describes what the read operations return in terms of the calls made
  before. The next definitions follow its words, over the log of the calls and their
  results, without looking at the service.

  \<open>most_recently_produced\<close> is, for each id, \<open>the record most recently produced by create
  or update for that id\<close>: a creation and a successful update put their result under its
  id, a successful removal takes the id out.
\<close>

fun produced_step :: "(number \<Rightarrow> Todo option) \<Rightarrow> call \<times> reply \<Rightarrow> (number \<Rightarrow> Todo option)" where
  "produced_step m (c, Created todo) = m(todo_id todo \<mapsto> todo)"
| "produced_step m (c, Updated (Some todo)) = m(todo_id todo \<mapsto> todo)"
| "produced_step m (Remove k, Removed True) = m(k := None)"
| "produced_step m (c, r) = m"

definition most_recently_produced :: "(call \<times> reply) list \<Rightarrow> number \<Rightarrow> Todo option" where
  "most_recently_produced es = foldl produced_step Map.empty es"

text \<open>
  \<open>insertion_order\<close> is the list of the ids in \<open>insertion order\<close>: a creation puts the id of
  its record at the end, a removal takes its id out, and an update that found its record
  shows the record's id where the id it was found under stood (the same id, unless the
  DTO had an \<open>id\<close> of its own); nothing else moves an id.
\<close>

fun insertion_step :: "number list \<Rightarrow> call \<times> reply \<Rightarrow> number list" where
  "insertion_step ids (c, Created todo) = ids @ [todo_id todo]"
| "insertion_step ids (Remove k, r) = filter (\<lambda>i. \<not> strict_eq i k) ids"
| "insertion_step ids (Update k dto now, Updated (Some todo)) =
     mutate_first (\<lambda>i. strict_eq i k) (\<lambda>i. todo_id todo) ids"
| "insertion_step ids (c, r) = ids"

definition insertion_order :: "(call \<times> reply) list \<Rightarrow> number list" where
  "insertion_order es = foldl insertion_step [] es"

text \<open>The records that the \<open>Create\<close> calls of a log returned, in order.\<close>

fun created_todos :: "(call \<times> reply) list \<Rightarrow> Todo list" where
  "created_todos [] = []"
| "created_todos ((c, Created todo) # es) = todo # created_todos es"
| "created_todos ((c, r) # es) = created_todos es"

text \<open>The calls that change a record of the collection or take one out.\<close>

fun is_Update :: "call \<Rightarrow> bool" where
  "is_Update (Update k dto now) = True"
| "is_Update c = False"

fun is_Remove :: "call \<Rightarrow> bool" where
  "is_Remove (Remove k) = True"
| "is_Remove c = False"

fun is_Create :: "call \<Rightarrow> bool" where
  "is_Create (Create dto now1 now2) = True"
| "is_Create c = False"

text \<open>The updates whose DTO has an \<open>id\<close>, or a \<open>createdAt\<close>, of its own.\<close>

fun carries_id :: "call \<Rightarrow> bool" where
  "carries_id (Update k dto now) = (own_id dto \<noteq> None)"
| "carries_id c = False"

fun carries_createdAt :: "call \<Rightarrow> bool" where
  "carries_createdAt (Update k dto now) = (own_createdAt dto \<noteq> None)"
| "carries_createdAt c = False"

text \<open>
  The titles that a call hands to the service, and the clock readings that a call has
  taken: two by \<open>create\<close>, one by an \<open>update\<close> that found its record (one that found none
  returns before \<^verbatim>\<open>new Date()\<close>).
\<close>

fun supplied_titles :: "call \<Rightarrow> string list" where
  "supplied_titles (Create dto now1 now2) = [CreateTodoDto.title dto]"
| "supplied_titles (Update k dto now) =
     (case UpdateTodoDto.title dto of None \<Rightarrow> [] | Some x \<Rightarrow> [x])"
| "supplied_titles c = []"

fun clock_readings :: "call \<times> reply \<Rightarrow> date list" where
  "clock_readings (Create dto now1 now2, r) = [now1, now2]"
| "clock_readings (Update k dto now, Updated (Some todo)) = [now]"
| "clock_readings (c, r) = []"

text \<open>
  A client that keeps the collection empty: \<open>churn n k\<close> creates a record and removes it
  again, \<open>n\<close> times, the first one under the id \<open>k\<close>.
\<close>

fun churn :: "nat \<Rightarrow> nat \<Rightarrow> call list" where
  "churn 0 k = []"
| "churn (Suc n) k =
     Create \<lparr>CreateTodoDto.title = ''buy milk''\<rparr> 0 0 # Remove (Fin (of_nat k)) # churn n (Suc k)"

subsection \<open>The invariant of the services with fresh ids\<close>

text \<open>
  The ids of the records increase along the array and are below \<open>g\<close>; and when \<open>n\<close>
  creations are still to come, \<open>n > 0\<close>, the counter is \<open>g\<close> and the last of them gets an id
  of at most \<open>2 ^ 53\<close>.
\<close>

definition ids_ordered :: "nat \<Rightarrow> nat \<Rightarrow> TodoService \<Rightarrow> bool" where
  "ids_ordered g n s \<longleftrightarrow>
     sorted_wrt num_less (map todo_id (todos s) @ [Fin (of_nat g)]) \<and>
     (n = 0 \<or> idCounter s = Fin (of_nat g) \<and> g + n \<le> Suc counter_limit)"

text \<open>
  The timestamps of a record are in order with respect to the clock readings still to
  come: \<open>createdAt\<close> is at most \<open>updatedAt\<close> and at most every later reading.
\<close>

definition stamps_ok :: "date list \<Rightarrow> Todo \<Rightarrow> bool" where
  "stamps_ok later todo \<longleftrightarrow>
     createdAt todo \<le> updatedAt todo \<and> (\<forall>r\<in>set later. createdAt todo \<le> r)"

section \<open>Properties\<close>

subsection \<open>Numbers\<close>

lemma num_less_irrefl: "\<not> num_less a a"
  by (cases a) simp_all

lemma num_less_trans: "num_less a b \<Longrightarrow> num_less b c \<Longrightarrow> num_less a c"
  by (cases a; cases b; cases c) simp_all

lemma pow2_pos: "0 < pow2 e"
  by (simp add: pow2_def)

lemma pow2_nat: "pow2 (int n) = 2 ^ n"
  by (simp add: pow2_def)

lemma pow2_neg: "0 \<le> e \<Longrightarrow> pow2 (- e) = 1 / 2 ^ nat e"
  by (cases "e = 0") (simp_all add: pow2_def)

lemma pow2_Suc: "pow2 (e + 1) = 2 * pow2 e"
proof (cases "0 \<le> e")
  case True
  then show ?thesis by (simp add: pow2_def nat_add_distrib)
next
  case False
  then have "nat (- e) = Suc (nat (- (e + 1)))" by simp
  with False show ?thesis by (simp add: pow2_def)
qed

lemma pow2_mono: "a \<le> b \<Longrightarrow> pow2 a \<le> pow2 b"
proof (induction "nat (b - a)" arbitrary: b)
  case 0
  then show ?case by simp
next
  case (Suc n)
  then have "n = nat (b - 1 - a)" "a \<le> b - 1" by simp_all
  then have "pow2 a \<le> pow2 (b - 1)" by (rule Suc.hyps(1))
  also have "\<dots> \<le> pow2 b"
    using pow2_Suc [of "b - 1"] pow2_pos [of "b - 1"] by simp
  finally show ?case .
qed

lemma pow2_less_imp: "pow2 a \<le> x \<Longrightarrow> x < pow2 b \<Longrightarrow> a < b"
  using pow2_mono [of b a] by (cases "a < b") auto

lemma pow2_exponent_le:
  assumes "1 \<le> \<bar>x\<bar>"
  shows "pow2 (exponent x) \<le> \<bar>x\<bar>"
proof -
  let ?n = "\<lfloor>\<bar>x\<bar>\<rfloor>"
  from assms have n: "0 < ?n" by simp
  then have "0 < bitlen ?n"
    using bitlen_eq_zero_iff [of ?n] bitlen_nonneg [of ?n] by linarith
  then have "pow2 (bitlen ?n - 1) = 2 ^ nat (bitlen ?n - 1)"
    by (simp add: pow2_def)
  also have "\<dots> = of_int (2 ^ nat (bitlen ?n - 1))" by simp
  also have "\<dots> \<le> of_int ?n"
    using bitlen_bounds [OF n] by (simp only: of_int_le_iff)
  also have "\<dots> \<le> \<bar>x\<bar>" by simp
  finally show ?thesis using assms by (simp add: exponent_def)
qed

lemma round_half_even_of_int: "round_half_even (of_int k) = k"
  by (simp add: round_half_even_def)

lemma binary64_of_int:
  assumes "\<bar>m\<bar> \<le> 2 ^ 53"
  shows "binary64 (of_int m) = Fin (of_int m)"
proof (cases "m = 0")
  case True
  then show ?thesis by (simp add: binary64_def)
next
  case False
  let ?x = "of_int m :: rat"
  let ?e = "max (exponent ?x) (- 1022)"
  from False have one: "1 \<le> \<bar>?x\<bar>"
    by (simp flip: of_int_abs)
  from assms have "(of_int \<bar>m\<bar> :: rat) \<le> of_int (2 ^ 53)"
    by (simp only: of_int_le_iff)
  then have le: "\<bar>?x\<bar> \<le> 2 ^ 53" by simp
  have "pow2 (exponent ?x) \<le> \<bar>?x\<bar>" using one by (rule pow2_exponent_le)
  with le have "pow2 (exponent ?x) < pow2 54"
    by (simp add: pow2_def)
  then have "exponent ?x < 54"
    using pow2_mono [of 54 "exponent ?x"] by (cases "exponent ?x < 54") auto
  then have e: "?e \<le> 53" by simp
  have "\<exists>k. ?x / pow2 (?e - 52) = of_int k"
  proof (cases "?e \<le> 52")
    case True
    then have "pow2 (?e - 52) = 1 / 2 ^ nat (52 - ?e)"
      using pow2_neg [of "52 - ?e"] by simp
    then have "?x / pow2 (?e - 52) = of_int (m * 2 ^ nat (52 - ?e))" by simp
    then show ?thesis by blast
  next
    case False
    with e have e53: "?e = 53" by simp
    then have "exponent ?x = 53" by (simp add: max_def split: if_splits)
    with \<open>pow2 (exponent ?x) \<le> \<bar>?x\<bar>\<close> le have "\<bar>?x\<bar> = 2 ^ 53"
      by (simp add: pow2_def)
    then have "(of_int \<bar>m\<bar> :: rat) = of_int (2 ^ 53)" by simp
    then have "\<bar>m\<bar> = 2 ^ 53" by (simp only: of_int_eq_iff)
    then have "m = 2 * 2 ^ 52 \<or> m = 2 * - (2 ^ 52)" by (cases "0 \<le> m") simp_all
    then have "?x / 2 = of_int (2 ^ 52) \<or> ?x / 2 = of_int (- (2 ^ 52))" by auto
    moreover from e53 have "pow2 (?e - 52) = 2" by (simp add: pow2_def)
    ultimately show ?thesis by metis
  qed
  then obtain k where k: "?x / pow2 (?e - 52) = of_int k" by blast
  have "of_int (round_half_even (?x / pow2 (?e - 52))) * pow2 (?e - 52) =
      (?x / pow2 (?e - 52)) * pow2 (?e - 52)"
    unfolding k round_half_even_of_int ..
  also have "\<dots> = ?x"
    using pow2_pos [of "?e - 52"] by simp
  finally have "of_int (round_half_even (?x / pow2 (?e - 52))) * pow2 (?e - 52) = ?x" .
  moreover from le have "\<not> pow2 1024 \<le> \<bar>?x\<bar>"
    by (simp add: pow2_def)
  ultimately show ?thesis
    using False by (simp add: binary64_def Let_def)
qed

lemma binary64_Ints:
  assumes "x \<in> \<int>" and "\<bar>x\<bar> \<le> 2 ^ 53"
  shows "binary64 x = Fin x"
proof -
  from assms(1) obtain m where m: "x = of_int m" by (auto elim: Ints_cases)
  with assms(2) have "(of_int \<bar>m\<bar> :: rat) \<le> of_int (2 ^ 53)" by simp
  then have "\<bar>m\<bar> \<le> 2 ^ 53" by (simp only: of_int_le_iff)
  then show ?thesis unfolding m by (rule binary64_of_int)
qed

lemma binary64_saturates: "binary64 (2 ^ 53 + 1) = Fin (2 ^ 53)"
  by code_simp

lemma num_succ_exact:
  assumes "x \<in> \<int>" and "0 \<le> x" and "x < 2 ^ 53"
  shows "num_succ (Fin x) = Fin (x + 1)"
proof -
  from assms have "x + 1 \<in> \<int>" by simp
  moreover have "\<bar>x + 1\<bar> \<le> 2 ^ 53"
  proof -
    from assms(1) obtain m where m: "x = of_int m" by (auto elim: Ints_cases)
    with assms have "0 \<le> m" and "(of_int m :: rat) < of_int (2 ^ 53)" by simp_all
    then have "0 \<le> m" and "m < 2 ^ 53" by (simp_all only: of_int_less_iff)
    then have "\<bar>m + 1\<bar> \<le> 2 ^ 53" by simp
    then have "(of_int \<bar>m + 1\<bar> :: rat) \<le> of_int (2 ^ 53)" by (simp only: of_int_le_iff)
    then show ?thesis unfolding m by simp
  qed
  ultimately show ?thesis by (simp add: binary64_Ints)
qed

lemma num_succ_saturates: "num_succ (Fin (2 ^ 53)) = Fin (2 ^ 53)"
  using binary64_saturates by simp

lemma num_succ_nat:
  assumes "f \<le> counter_limit"
  shows "num_succ (Fin (of_nat f)) = Fin (of_nat (min (Suc f) counter_limit))"
proof (cases "f < counter_limit")
  case True
  then have "f < 2 ^ 53" by (simp add: counter_limit_def)
  then have "(of_nat f :: rat) < of_nat (2 ^ 53)" by (simp only: of_nat_less_iff)
  then have "num_succ (Fin (of_nat f)) = Fin (of_nat f + 1)"
    by (intro num_succ_exact) simp_all
  also have "\<dots> = Fin (of_nat (Suc f))" by simp
  finally show ?thesis using True by (simp only: min_def) simp
next
  case False
  with assms have f: "f = counter_limit" by simp
  have "num_succ (Fin (of_nat counter_limit)) = Fin (of_nat counter_limit)"
    using num_succ_saturates by (simp add: counter_limit_def)
  then show ?thesis unfolding f by (simp only: min_def) simp
qed

lemma length_mutate_first: "length (mutate_first P f xs) = length xs"
  by (induction xs) simp_all

subsection \<open>\<open>find\<close>, \<open>filter\<close> and the mutation in place\<close>

lemma find_mutate_first_same:
  assumes "\<And>x. P x \<Longrightarrow> P (f x)"
  shows "find P (mutate_first P f xs) = map_option f (find P xs)"
  using assms by (induction xs) simp_all

lemma find_mutate_first_other:
  assumes "\<And>x. P x \<Longrightarrow> \<not> Q x \<and> \<not> Q (f x)"
  shows "find Q (mutate_first P f xs) = find Q xs"
  using assms by (induction xs) auto

lemma mutate_first_list_update:
  assumes "find P xs = Some x"
  shows "\<exists>i<length xs. xs ! i = x \<and> (\<forall>f. mutate_first P f xs = xs[i := f x])"
  using assms
proof (induction xs)
  case Nil
  then show ?case by simp
next
  case (Cons y ys)
  show ?case
  proof (cases "P y")
    case True
    with Cons.prems have "y = x" by simp
    with True have "(y # ys) ! 0 = x \<and> (\<forall>f. mutate_first P f (y # ys) = (y # ys)[0 := f x])"
      by simp
    then show ?thesis by blast
  next
    case False
    with Cons obtain i where "i < length ys" "ys ! i = x"
        "\<forall>f. mutate_first P f ys = ys[i := f x]"
      by auto
    with False have "Suc i < length (y # ys) \<and> (y # ys) ! Suc i = x
        \<and> (\<forall>f. mutate_first P f (y # ys) = (y # ys)[Suc i := f x])"
      by simp
    then show ?thesis by blast
  qed
qed

lemma map_mutate_first:
  assumes "\<And>x. g (f x) = g x"
  shows "map g (mutate_first P f xs) = map g xs"
  using assms by (induction xs) simp_all

lemma set_mutate_first: "set (mutate_first P f xs) \<subseteq> set xs \<union> f ` {x \<in> set xs. P x}"
  by (induction xs) auto

lemma find_filter_same: "find P (filter (\<lambda>x. \<not> P x) xs) = None"
  by (induction xs) simp_all

lemma find_filter_other:
  assumes "\<And>x. Q x \<Longrightarrow> \<not> P x"
  shows "find Q (filter (\<lambda>x. \<not> P x) xs) = find Q xs"
  using assms by (induction xs) auto

lemma filter_drops_one:
  assumes "distinct (map g xs)" and "find (\<lambda>x. g x = k) xs = Some t"
  shows "\<exists>i<length xs. xs ! i = t \<and> filter (\<lambda>x. g x \<noteq> k) xs = take i xs @ drop (Suc i) xs"
  using assms
proof (induction xs)
  case Nil
  then show ?case by simp
next
  case (Cons y ys)
  show ?case
  proof (cases "g y = k")
    case True
    with Cons.prems have "y = t" by simp
    moreover from True Cons.prems(1) have "\<forall>x\<in>set ys. g x \<noteq> k" by (auto simp: image_iff)
    ultimately have "(y # ys) ! 0 = t \<and>
        filter (\<lambda>x. g x \<noteq> k) (y # ys) = take 0 (y # ys) @ drop (Suc 0) (y # ys)"
      using True by (simp add: filter_id_conv)
    then show ?thesis by blast
  next
    case False
    with Cons obtain i where "i < length ys" "ys ! i = t"
        "filter (\<lambda>x. g x \<noteq> k) ys = take i ys @ drop (Suc i) ys"
      by auto
    with False have "Suc i < length (y # ys) \<and> (y # ys) ! Suc i = t \<and>
        filter (\<lambda>x. g x \<noteq> k) (y # ys) = take (Suc i) (y # ys) @ drop (Suc (Suc i)) (y # ys)"
      by simp
    then show ?thesis by blast
  qed
qed

lemma find_append:
  "find P (xs @ ys) = (case find P xs of None \<Rightarrow> find P ys | Some x \<Rightarrow> Some x)"
  by (induction xs) simp_all

lemma sorted_wrt_filter_less: "sorted_wrt R xs \<Longrightarrow> sorted_wrt R (filter P xs)"
  by (induction xs) auto

lemma sorted_wrt_num_less_distinct: "sorted_wrt num_less xs \<Longrightarrow> distinct xs"
  by (induction xs) (auto simp: num_less_irrefl)

lemma map_mutate_first_key:
  assumes "\<And>x. P x \<longleftrightarrow> Q (g x)"
  shows "map g (mutate_first P f xs) = mutate_first Q (\<lambda>i. g (f (the (find P xs)))) (map g xs)"
  using assms by (induction xs) auto

subsection \<open>What the methods change\<close>

lemma Object_assign_eq:
  "Object_assign todo dto now =
     todo\<lparr>todo_id := (case own_id dto of None \<Rightarrow> todo_id todo | Some i \<Rightarrow> i),
          title := (case UpdateTodoDto.title dto of None \<Rightarrow> title todo | Some x \<Rightarrow> x),
          isCompleted := (case UpdateTodoDto.isCompleted dto of
                            None \<Rightarrow> isCompleted todo | Some b \<Rightarrow> b),
          createdAt := (case own_createdAt dto of None \<Rightarrow> createdAt todo | Some d \<Rightarrow> d),
          updatedAt := now\<rparr>"
  by (simp add: Object_assign_def Let_def split: option.splits)

lemma Object_assign_patch:
  "Object_assign todo (patch t c) now =
     todo\<lparr>title := (case t of None \<Rightarrow> title todo | Some x \<Rightarrow> x),
          isCompleted := (case c of None \<Rightarrow> isCompleted todo | Some b \<Rightarrow> b),
          updatedAt := now\<rparr>"
  by (simp add: Object_assign_eq patch_def)

lemma todo_id_Object_assign:
  "todo_id (Object_assign todo dto now) =
     (case own_id dto of None \<Rightarrow> todo_id todo | Some i \<Rightarrow> i)"
  by (simp add: Object_assign_eq)

lemma title_Object_assign:
  "title (Object_assign todo dto now) =
     (case UpdateTodoDto.title dto of None \<Rightarrow> title todo | Some x \<Rightarrow> x)"
  by (simp add: Object_assign_eq)

lemma createdAt_Object_assign:
  "createdAt (Object_assign todo dto now) =
     (case own_createdAt dto of None \<Rightarrow> createdAt todo | Some d \<Rightarrow> d)"
  by (simp add: Object_assign_eq)

lemma updatedAt_Object_assign: "updatedAt (Object_assign todo dto now) = now"
  by (simp add: Object_assign_eq)

lemma idCounter_create:
  "idCounter (fst (TodoService_create s dto now1 now2)) = num_succ (idCounter s)"
  by (simp add: TodoService_create_def Let_def)

lemma todo_id_create: "todo_id (snd (TodoService_create s dto now1 now2)) = idCounter s"
  by (simp add: TodoService_create_def Let_def)

lemma todos_create:
  "todos (fst (TodoService_create s dto now1 now2)) =
     todos s @ [snd (TodoService_create s dto now1 now2)]"
  by (simp add: TodoService_create_def Let_def)

lemma findOne_None_iff:
  "TodoService_findOne s k = None \<longleftrightarrow> (\<forall>todo\<in>set (todos s). \<not> strict_eq (todo_id todo) k)"
  by (auto simp: TodoService_findOne_def find_None_iff)

lemma findOne_NaN: "TodoService_findOne s NaN = None"
  by (simp add: TodoService_findOne_def find_None_iff strict_eq_def)

lemma update_None:
  assumes "TodoService_findOne s k = None"
  shows "TodoService_update s k dto now = (s, None)"
  using assms by (simp add: TodoService_update_def)

lemma update_Some:
  assumes "TodoService_findOne s k = Some todo"
  shows "TodoService_update s k dto now =
     (s\<lparr>todos := mutate_first (\<lambda>todo. strict_eq (todo_id todo) k)
                    (\<lambda>todo. Object_assign todo dto now) (todos s)\<rparr>,
      Some (Object_assign todo dto now))"
  using assms by (simp add: TodoService_update_def)

lemma idCounter_update: "idCounter (fst (TodoService_update s k dto now)) = idCounter s"
  by (simp add: TodoService_update_def split: option.splits)

lemma length_update:
  "length (todos (fst (TodoService_update s k dto now))) = length (todos s)"
  by (simp add: TodoService_update_def length_mutate_first split: option.splits)

lemma ids_update:
  assumes "own_id dto = None"
  shows "map todo_id (todos (fst (TodoService_update s k dto now))) = map todo_id (todos s)"
  using assms
  by (simp add: TodoService_update_def map_mutate_first todo_id_Object_assign
      split: option.splits)

lemma todos_update_subset:
  "set (todos (fst (TodoService_update s k dto now))) \<subseteq>
     set (todos s) \<union> (\<lambda>todo. Object_assign todo dto now) ` set (todos s)"
proof (cases "TodoService_findOne s k")
  case None
  then show ?thesis by (simp add: TodoService_update_def)
next
  case (Some todo)
  then show ?thesis
    using set_mutate_first [of "\<lambda>todo. strict_eq (todo_id todo) k"
        "\<lambda>todo. Object_assign todo dto now" "todos s"]
    by (auto simp: TodoService_update_def)
qed

lemma idCounter_remove: "idCounter (fst (TodoService_remove s k)) = idCounter s"
  by (simp add: TodoService_remove_def Let_def)

lemma todos_remove:
  "todos (fst (TodoService_remove s k)) = filter (\<lambda>todo. \<not> strict_eq (todo_id todo) k) (todos s)"
  by (simp add: TodoService_remove_def Let_def)

lemma ids_remove:
  "map todo_id (todos (fst (TodoService_remove s k))) =
     filter (\<lambda>i. \<not> strict_eq i k) (map todo_id (todos s))"
  by (simp add: todos_remove filter_map comp_def)

lemma remove_not_found:
  assumes "\<forall>todo\<in>set (todos s). \<not> strict_eq (todo_id todo) k"
  shows "TodoService_remove s k = (s, False)"
proof -
  from assms have "filter (\<lambda>todo. \<not> strict_eq (todo_id todo) k) (todos s) = todos s"
    by (simp add: filter_id_conv)
  then show ?thesis
    by (simp add: TodoService_remove_def Let_def)
qed

lemma remove_found:
  assumes "\<exists>todo\<in>set (todos s). strict_eq (todo_id todo) k"
  shows "TodoService_remove s k =
     (s\<lparr>todos := filter (\<lambda>todo. \<not> strict_eq (todo_id todo) k) (todos s)\<rparr>, True)"
proof -
  from assms
  have "length (filter (\<lambda>todo. \<not> strict_eq (todo_id todo) k) (todos s)) < length (todos s)"
    by (auto intro: length_filter_less)
  then show ?thesis
    by (simp add: TodoService_remove_def Let_def)
qed

lemma snd_remove_iff:
  "snd (TodoService_remove s k) \<longleftrightarrow> (\<exists>todo\<in>set (todos s). strict_eq (todo_id todo) k)"
  using remove_not_found [of s k] remove_found [of s k]
  by (cases "\<exists>todo\<in>set (todos s). strict_eq (todo_id todo) k") simp_all

lemma findOne_remove_same: "TodoService_findOne (fst (TodoService_remove s k)) k = None"
  by (simp add: TodoService_findOne_def todos_remove find_filter_same)

lemma fst_run_Cons: "fst (run s (c # cs)) = fst (run (fst (invoke s c)) cs)"
  by (simp add: split_beta)

lemma snd_run_Cons:
  "snd (run s (c # cs)) = (c, snd (invoke s c)) # snd (run (fst (invoke s c)) cs)"
  by (simp add: split_beta)

lemma run_append:
  "run s (cs @ ds) =
     (fst (run (fst (run s cs)) ds), snd (run s cs) @ snd (run (fst (run s cs)) ds))"
  by (induction cs arbitrary: s) (simp_all add: split_beta)

lemma idCounter_invoke:
  "idCounter (fst (invoke s c)) = (if is_Create c then num_succ (idCounter s) else idCounter s)"
  by (cases c)
    (simp_all add: split_beta idCounter_create idCounter_update idCounter_remove)

lemma created_ids_invoke:
  "created_ids ((c, snd (invoke s c)) # es) =
     (if is_Create c then idCounter s # created_ids es else created_ids es)"
  by (cases c) (simp_all add: split_beta todo_id_create)

subsection \<open>The counter\<close>

lemma idCounter_invoke_nat:
  assumes "idCounter s = Fin (of_nat f)" and "f \<le> counter_limit"
  shows "idCounter (fst (invoke s c)) =
     Fin (of_nat (if is_Create c then min (Suc f) counter_limit else f))"
proof (cases "is_Create c")
  case True
  then have "idCounter (fst (invoke s c)) = num_succ (idCounter s)"
    by (simp only: idCounter_invoke if_True)
  also have "\<dots> = num_succ (Fin (of_nat f))" by (simp only: assms(1))
  also have "\<dots> = Fin (of_nat (min (Suc f) counter_limit))"
    using assms(2) by (rule num_succ_nat)
  finally show ?thesis using True by (simp only: if_True)
next
  case False
  then show ?thesis by (simp only: idCounter_invoke if_False assms(1))
qed

lemma run_counter:
  assumes "idCounter s = Fin (of_nat f)" and "f \<le> counter_limit"
  shows "idCounter (fst (run s cs)) =
           Fin (of_nat (min (f + length (filter is_Create cs)) counter_limit))"
  using assms
proof (induction cs arbitrary: s f)
  case Nil
  then show ?case by (simp add: min_def)
next
  case (Cons c cs)
  let ?s' = "fst (invoke s c)"
  let ?f' = "if is_Create c then min (Suc f) counter_limit else f"
  from Cons.prems have "idCounter ?s' = Fin (of_nat ?f')"
    by (rule idCounter_invoke_nat)
  moreover from Cons.prems(2) have "?f' \<le> counter_limit" by simp
  ultimately have "idCounter (fst (run ?s' cs)) =
      Fin (of_nat (min (?f' + length (filter is_Create cs)) counter_limit))"
    by (rule Cons.IH)
  moreover have "min (?f' + length (filter is_Create cs)) counter_limit =
      min (f + length (filter is_Create (c # cs))) counter_limit"
    by (simp add: min_def)
  ultimately show ?case
    by (simp only: fst_run_Cons)
qed

lemma run_created_ids:
  assumes "idCounter s = Fin (of_nat f)" and "f \<le> counter_limit"
  shows "created_ids (snd (run s cs)) =
           map (\<lambda>j. Fin (of_nat (min (f + j) counter_limit)))
             [0 ..< length (filter is_Create cs)]"
  using assms
proof (induction cs arbitrary: s f)
  case Nil
  then show ?case by simp
next
  case (Cons c cs)
  let ?s' = "fst (invoke s c)"
  let ?n = "length (filter is_Create cs)"
  let ?f' = "if is_Create c then min (Suc f) counter_limit else f"
  from Cons.prems have "idCounter ?s' = Fin (of_nat ?f')"
    by (rule idCounter_invoke_nat)
  moreover from Cons.prems(2) have "?f' \<le> counter_limit" by simp
  ultimately have rest: "created_ids (snd (run ?s' cs)) =
      map (\<lambda>j. Fin (of_nat (min (?f' + j) counter_limit))) [0 ..< ?n]"
    by (rule Cons.IH)
  show ?case
  proof (cases "is_Create c")
    case True
    have "map (\<lambda>j. Fin (of_nat (min (?f' + j) counter_limit))) [0 ..< ?n] =
        map (\<lambda>j. Fin (of_nat (min (f + Suc j) counter_limit))) [0 ..< ?n]"
      using True by (simp add: min_def)
    also have "\<dots> = map (\<lambda>j. Fin (of_nat (min (f + j) counter_limit))) (map Suc [0 ..< ?n])"
      by (simp add: comp_def)
    also have "\<dots> = map (\<lambda>j. Fin (of_nat (min (f + j) counter_limit))) [Suc 0 ..< Suc ?n]"
      by (simp only: map_Suc_upt)
    finally have "created_ids (snd (run ?s' cs)) =
        map (\<lambda>j. Fin (of_nat (min (f + j) counter_limit))) [Suc 0 ..< Suc ?n]"
      using rest by simp
    moreover have "[0 ..< Suc ?n] = 0 # [Suc 0 ..< Suc ?n]"
      by (simp add: upt_conv_Cons del: upt_Suc)
    moreover have "idCounter s = Fin (of_nat (min (f + 0) counter_limit))"
      using Cons.prems by (simp add: min_def)
    ultimately show ?thesis
      using True
      by (simp add: snd_run_Cons created_ids_invoke del: run.simps invoke.simps upt_Suc)
  next
    case False
    with rest show ?thesis
      by (simp add: snd_run_Cons created_ids_invoke del: run.simps invoke.simps)
  qed
qed

subsection \<open>The invariant holds after every call\<close>

lemma ids_ordered_new:
  assumes "n \<le> counter_limit"
  shows "ids_ordered 1 n TodoService_new"
  using assms by (simp add: ids_ordered_def TodoService_new_def)

lemma ids_ordered_fewer:
  assumes "ids_ordered g (n + m) s"
  shows "ids_ordered g n s"
  using assms by (auto simp: ids_ordered_def)

lemma ids_ordered_distinct:
  assumes "ids_ordered g n s"
  shows "distinct (map todo_id (todos s))"
  using assms by (auto simp: ids_ordered_def sorted_wrt_append intro: sorted_wrt_num_less_distinct)

lemma ids_ordered_below:
  assumes "ids_ordered g n s" and "todo \<in> set (todos s)"
  shows "num_less (todo_id todo) (Fin (of_nat g))"
  using assms by (auto simp: ids_ordered_def sorted_wrt_append)

lemma ids_ordered_create:
  assumes "ids_ordered g (Suc n) s"
  shows "ids_ordered (Suc g) n (fst (TodoService_create s dto now1 now2))"
proof -
  from assms have srt: "sorted_wrt num_less (map todo_id (todos s))"
    and below: "\<forall>i\<in>set (map todo_id (todos s)). num_less i (Fin (of_nat g))"
    and c: "idCounter s = Fin (of_nat g)" and le: "g + Suc n \<le> Suc counter_limit"
    by (auto simp: ids_ordered_def sorted_wrt_append)
  have "num_less i (Fin (of_nat (Suc g)))" if "i \<in> set (map todo_id (todos s))" for i
  proof -
    from below that have "num_less i (Fin (of_nat g))" by blast
    moreover have "num_less (Fin (of_nat g)) (Fin (of_nat (Suc g)))" by simp
    ultimately show ?thesis by (rule num_less_trans)
  qed
  with srt below c
  have "sorted_wrt num_less
      (map todo_id (todos (fst (TodoService_create s dto now1 now2))) @ [Fin (of_nat (Suc g))])"
    by (simp add: TodoService_create_def Let_def sorted_wrt_append)
  moreover have "idCounter (fst (TodoService_create s dto now1 now2)) = Fin (of_nat (Suc g))"
    if "n \<noteq> 0"
  proof -
    from that le have "g \<le> counter_limit" and "min (Suc g) counter_limit = Suc g" by simp_all
    with c num_succ_nat [of g] show ?thesis
      by (simp add: idCounter_create)
  qed
  ultimately show ?thesis
    using le by (auto simp: ids_ordered_def)
qed

lemma ids_ordered_update:
  assumes "ids_ordered g n s" and "own_id dto = None"
  shows "ids_ordered g n (fst (TodoService_update s k dto now))"
  using assms by (simp only: ids_ordered_def idCounter_update ids_update)

lemma ids_ordered_remove:
  assumes "ids_ordered g n s"
  shows "ids_ordered g n (fst (TodoService_remove s k))"
proof -
  from assms have "sorted_wrt num_less (map todo_id (todos s))"
    and "\<forall>i\<in>set (map todo_id (todos s)). num_less i (Fin (of_nat g))"
    by (auto simp: ids_ordered_def sorted_wrt_append)
  then have "sorted_wrt num_less
      (map todo_id (todos (fst (TodoService_remove s k))) @ [Fin (of_nat g)])"
    by (auto simp: ids_remove sorted_wrt_append sorted_wrt_filter_less)
  with assms show ?thesis
    by (simp add: ids_ordered_def idCounter_remove)
qed

lemma ids_ordered_invoke:
  assumes "ids_ordered g (length (filter is_Create [c]) + n) s" and "\<not> carries_id c"
  shows "ids_ordered (g + length (filter is_Create [c])) n (fst (invoke s c))"
  using assms
  by (cases c)
    (simp_all add: split_beta ids_ordered_create ids_ordered_update ids_ordered_remove)

lemma ids_ordered_run:
  assumes "ids_ordered g (length (filter is_Create cs) + n) s" and "\<not> list_ex carries_id cs"
  shows "ids_ordered (g + length (filter is_Create cs)) n (fst (run s cs))"
  using assms
proof (induction cs arbitrary: s g)
  case Nil
  then show ?case by simp
next
  case (Cons c cs)
  let ?c = "length (filter is_Create [c])" and ?cs = "length (filter is_Create cs)"
  have len: "length (filter is_Create (c # cs)) + n = ?c + (?cs + n)" by simp
  from Cons.prems have "ids_ordered (g + ?c) (?cs + n) (fst (invoke s c))"
    unfolding len by (intro ids_ordered_invoke) simp_all
  moreover from Cons.prems have "\<not> list_ex carries_id cs" by simp
  ultimately have "ids_ordered (g + ?c + ?cs) n (fst (run (fst (invoke s c)) cs))"
    by (rule Cons.IH)
  moreover have "g + ?c + ?cs = g + length (filter is_Create (c # cs))" by simp
  ultimately show ?case
    by (simp only: fst_run_Cons)
qed

subsection \<open>The client that keeps the collection empty\<close>

lemma count_churn: "length (filter is_Create (churn n k)) = n"
  by (induction n k rule: churn.induct) simp_all

lemma run_churn:
  assumes "todos s = []" and "idCounter s = Fin (of_nat k)" and "k + n \<le> counter_limit"
  shows "fst (run s (churn n k)) = s\<lparr>idCounter := Fin (of_nat (k + n))\<rparr>"
  using assms
proof (induction n arbitrary: s k)
  case 0
  then show ?case by simp
next
  case (Suc n)
  let ?s' = "s\<lparr>idCounter := Fin (of_nat (Suc k))\<rparr>"
  from Suc.prems have "k \<le> counter_limit" and "min (Suc k) counter_limit = Suc k"
    by simp_all
  with Suc.prems(2) num_succ_nat [of k] have "num_succ (idCounter s) = Fin (of_nat (Suc k))"
    by simp
  with Suc.prems(1,2) have step: "fst (run s [Create \<lparr>CreateTodoDto.title = ''buy milk''\<rparr> 0 0,
      Remove (Fin (of_nat k))]) = ?s'"
    by (simp add: TodoService_create_def TodoService_remove_def Let_def strict_eq_def
        del: num_succ.simps)
  have "fst (run s (churn (Suc n) k)) = fst (run ?s' (churn n (Suc k)))"
    using step run_append [of s "[Create \<lparr>CreateTodoDto.title = ''buy milk''\<rparr> 0 0,
      Remove (Fin (of_nat k))]" "churn n (Suc k)"]
    by simp
  also have "\<dots> = ?s'\<lparr>idCounter := Fin (of_nat (Suc k + n))\<rparr>"
    using Suc.prems by (intro Suc.IH) simp_all
  finally show ?case by simp
qed

lemma run_churn_new:
  "fst (run TodoService_new (churn (2 ^ 53 - 1) 1)) = \<lparr>todos = [], idCounter = Fin (2 ^ 53)\<rparr>"
proof -
  have "fst (run TodoService_new (churn (counter_limit - 1) 1)) =
      TodoService_new\<lparr>idCounter := Fin (of_nat (1 + (counter_limit - 1)))\<rparr>"
    by (rule run_churn) (simp_all add: TodoService_new_def counter_limit_def)
  then show ?thesis
    by (simp add: TodoService_new_def counter_limit_def)
qed

subsection \<open>The ids that create returns\<close>

lemma created_ids_append: "created_ids (es @ fs) = created_ids es @ created_ids fs"
proof (induction es)
  case Nil
  show ?case by simp
next
  case (Cons e es)
  obtain c r where e: "e = (c, r)" by (cases e)
  from Cons show ?case unfolding e by (cases r) simp_all
qed

lemma create_at_limit:
  assumes "x = 2 ^ 53"
  shows "TodoService_create \<lparr>todos = ts, idCounter = Fin x\<rparr> dto now1 now2 =
     (\<lparr>todos = ts @ [\<lparr>todo_id = Fin x, title = CreateTodoDto.title dto,
          isCompleted = False, createdAt = now1, updatedAt = now2\<rparr>],
        idCounter = Fin x\<rparr>,
      \<lparr>todo_id = Fin x, title = CreateTodoDto.title dto,
          isCompleted = False, createdAt = now1, updatedAt = now2\<rparr>)"
  using num_succ_saturates unfolding assms
  by (simp add: TodoService_create_def Let_def del: num_succ.simps)

lemma create_below_limit:
  assumes "x \<in> \<int>" and "0 \<le> x" and "x < 2 ^ 53"
  shows "TodoService_create \<lparr>todos = ts, idCounter = Fin x\<rparr> dto now1 now2 =
     (\<lparr>todos = ts @ [\<lparr>todo_id = Fin x, title = CreateTodoDto.title dto,
          isCompleted = False, createdAt = now1, updatedAt = now2\<rparr>],
        idCounter = Fin (x + 1)\<rparr>,
      \<lparr>todo_id = Fin x, title = CreateTodoDto.title dto,
          isCompleted = False, createdAt = now1, updatedAt = now2\<rparr>)"
  using num_succ_exact [OF assms] by (simp add: TodoService_create_def Let_def del: num_succ.simps)

text \<open>
  The client that keeps the collection empty makes \<open>2 ^ 53 - 1\<close> creations, each followed
  by the removal of its record. The collection is empty then and the counter is
  \<open>2 ^ 53\<close>. The next creation returns the id \<open>2 ^ 53\<close> and stores \<open>2 ^ 53 + 1\<close>, rounded:
  \<open>2 ^ 53\<close>. The creation after it returns \<open>2 ^ 53\<close> again.
\<close>

theorem counter_stuck_counterexample:
  "fst (run TodoService_new (churn (2 ^ 53 - 1) 1)) = \<lparr>todos = [], idCounter = Fin (2 ^ 53)\<rparr> \<and>
   created_ids (snd (run (fst (run TodoService_new (churn (2 ^ 53 - 1) 1)))
      [Create \<lparr>CreateTodoDto.title = ''buy milk''\<rparr> 10 10,
       Create \<lparr>CreateTodoDto.title = ''walk dog''\<rparr> 20 20])) = [Fin (2 ^ 53), Fin (2 ^ 53)] \<and>
   \<not> distinct (created_ids (snd (run TodoService_new (churn (2 ^ 53 - 1) 1 @
      [Create \<lparr>CreateTodoDto.title = ''buy milk''\<rparr> 10 10,
       Create \<lparr>CreateTodoDto.title = ''walk dog''\<rparr> 20 20]))))"
proof -
  have ids: "created_ids (snd (run \<lparr>todos = [], idCounter = Fin (2 ^ 53)\<rparr>
      [Create \<lparr>CreateTodoDto.title = ''buy milk''\<rparr> 10 10,
       Create \<lparr>CreateTodoDto.title = ''walk dog''\<rparr> 20 20])) = [Fin (2 ^ 53), Fin (2 ^ 53)]"
    by (simp add: create_at_limit)
  then show ?thesis
    by (simp only: run_churn_new run_append created_ids_append snd_conv) simp
qed

text \<open>
  Claim C1, as the service has it. The counter is a binary64 number and stops at
  \<open>2 ^ 53\<close>. Whatever calls are made on a new service, creations, updates with any body
  and removals in any order: as long as the sequence has at most \<open>2 ^ 53\<close> creations, the
  ids that the successive \<open>create\<close> calls return are 1, 2, 3 and so on, so they are
  strictly increasing and no id is returned twice, also not the id of a record that a
  \<open>Remove\<close> call of the sequence has removed in between.
\<close>

theorem created_ids_increasing_up_to_limit:
  assumes "length (filter is_Create cs) \<le> 2 ^ 53"
  shows "created_ids (snd (run TodoService_new cs)) =
           map (\<lambda>j. Fin (of_nat j)) [1 ..< Suc (length (filter is_Create cs))] \<and>
         sorted_wrt num_less (created_ids (snd (run TodoService_new cs))) \<and>
         distinct (created_ids (snd (run TodoService_new cs)))"
proof -
  let ?n = "length (filter is_Create cs)"
  have "idCounter TodoService_new = Fin (of_nat 1)" and "1 \<le> counter_limit"
    by (simp_all add: TodoService_new_def counter_limit_def)
  then have "created_ids (snd (run TodoService_new cs)) =
      map (\<lambda>j. Fin (of_nat (min (1 + j) counter_limit))) [0 ..< ?n]"
    by (rule run_created_ids)
  also have "\<dots> = map (\<lambda>j. Fin (of_nat (Suc j))) [0 ..< ?n]"
    using assms by (simp add: counter_limit_def min_def)
  also have "\<dots> = map (\<lambda>j. Fin (of_nat j)) (map Suc [0 ..< ?n])"
    by (simp add: comp_def)
  also have "\<dots> = map (\<lambda>j. Fin (of_nat j)) [1 ..< Suc ?n]"
    by (simp only: map_Suc_upt One_nat_def)
  finally have ids: "created_ids (snd (run TodoService_new cs)) =
      map (\<lambda>j. Fin (of_nat j)) [1 ..< Suc ?n]" .
  have "sorted_wrt num_less (map (\<lambda>j. Fin (of_nat j)) [1 ..< Suc ?n])"
    by (simp add: sorted_wrt_map del: upt_Suc)
  with ids show ?thesis
    by (simp add: sorted_wrt_num_less_distinct del: upt_Suc)
qed

text \<open>Three creations around a removal and an update: the ids are 1, 2 and 3.\<close>

theorem created_ids_increasing_up_to_limit_witness:
  "length (filter is_Create
      [Create \<lparr>CreateTodoDto.title = ''buy milk''\<rparr> 10 10, Remove (Fin 1),
       Create \<lparr>CreateTodoDto.title = ''walk dog''\<rparr> 20 21,
       Update (Fin 2) (patch None (Some True)) 30,
       Create \<lparr>CreateTodoDto.title = ''post letter''\<rparr> 40 40]) = 3 \<and>
   created_ids (snd (run TodoService_new
      [Create \<lparr>CreateTodoDto.title = ''buy milk''\<rparr> 10 10, Remove (Fin 1),
       Create \<lparr>CreateTodoDto.title = ''walk dog''\<rparr> 20 21,
       Update (Fin 2) (patch None (Some True)) 30,
       Create \<lparr>CreateTodoDto.title = ''post letter''\<rparr> 40 40])) = [Fin 1, Fin 2, Fin 3] \<and>
   sorted_wrt num_less [Fin 1, Fin 2, Fin 3] \<and> distinct [Fin 1, Fin 2, Fin (3::rat)]"
  using created_ids_increasing_up_to_limit [of
      "[Create \<lparr>CreateTodoDto.title = ''buy milk''\<rparr> 10 10, Remove (Fin 1),
       Create \<lparr>CreateTodoDto.title = ''walk dog''\<rparr> 20 21,
       Update (Fin 2) (patch None (Some True)) 30,
       Create \<lparr>CreateTodoDto.title = ''post letter''\<rparr> 40 40]"]
  by (simp add: TodoService_new_def create_below_limit TodoService_update_def
      TodoService_remove_def TodoService_findOne_def Object_assign_def patch_def
      strict_eq_def Let_def upt_conv_Cons del: upt_Suc)

subsection \<open>Removing twice\<close>

text \<open>
  Claim C10. Once \<open>remove\<close> has returned for an id, whether it removed a record or found
  none, a second \<open>remove\<close> of the same id returns \<open>False\<close> and leaves the whole service,
  the collection and the id counter, as the first call left it.
\<close>

theorem remove_twice:
  "TodoService_remove (fst (TodoService_remove s k)) k = (fst (TodoService_remove s k), False)"
  by (simp add: TodoService_remove_def Let_def)

text \<open>After two creations, record 1 is removed; removing it again changes nothing.\<close>

theorem remove_twice_witness:
  "TodoService_remove (fst (TodoService_remove (fst (run TodoService_new
      [Create \<lparr>CreateTodoDto.title = ''buy milk''\<rparr> 10 10,
       Create \<lparr>CreateTodoDto.title = ''walk dog''\<rparr> 20 20])) (Fin 1))) (Fin 1) =
   (\<lparr>todos = [\<lparr>todo_id = Fin 2, title = ''walk dog'', isCompleted = False,
        createdAt = 20, updatedAt = 20\<rparr>], idCounter = Fin 3\<rparr>, False)"
  using remove_twice [of "fst (run TodoService_new
      [Create \<lparr>CreateTodoDto.title = ''buy milk''\<rparr> 10 10,
       Create \<lparr>CreateTodoDto.title = ''walk dog''\<rparr> 20 20])" "Fin 1"]
  by (simp add: TodoService_new_def create_below_limit TodoService_remove_def
      strict_eq_def Let_def)

subsection \<open>Update\<close>

text \<open>
  Claim C6. When no record of the collection has the id, \<open>update\<close> returns not-found
  (\<^verbatim>\<open>undefined\<close>, here \<open>None\<close>) for every body and every clock reading, and the service it
  leaves is the service it was given: the same collection and the same id counter.
\<close>

theorem update_not_found:
  assumes "\<forall>todo\<in>set (todos s). \<not> strict_eq (todo_id todo) k"
  shows "TodoService_update s k dto now = (s, None)"
  using assms by (simp add: update_None findOne_None_iff)

text \<open>
  Two records, ids 1 and 2; an update of id 99, with a body that has a title and an id of
  its own, finds nothing and changes nothing.
\<close>

theorem update_not_found_witness:
  "map todo_id (todos (fst (run TodoService_new
      [Create \<lparr>CreateTodoDto.title = ''buy milk''\<rparr> 10 10,
       Create \<lparr>CreateTodoDto.title = ''walk dog''\<rparr> 20 20]))) = [Fin 1, Fin 2] \<and>
   TodoService_update (fst (run TodoService_new
      [Create \<lparr>CreateTodoDto.title = ''buy milk''\<rparr> 10 10,
       Create \<lparr>CreateTodoDto.title = ''walk dog''\<rparr> 20 20])) (Fin 99)
      \<lparr>UpdateTodoDto.title = Some ''x'', UpdateTodoDto.isCompleted = None,
        own_id = Some (Fin 1), own_createdAt = None, own_updatedAt = None\<rparr> 30 =
   (\<lparr>todos = [\<lparr>todo_id = Fin 1, title = ''buy milk'', isCompleted = False,
                createdAt = 10, updatedAt = 10\<rparr>,
              \<lparr>todo_id = Fin 2, title = ''walk dog'', isCompleted = False,
                createdAt = 20, updatedAt = 20\<rparr>],
      idCounter = Fin 3\<rparr>, None)"
  using update_not_found [of "(fst (run TodoService_new
      [Create \<lparr>CreateTodoDto.title = ''buy milk''\<rparr> 10 10,
       Create \<lparr>CreateTodoDto.title = ''walk dog''\<rparr> 20 20]))" "Fin 99"
      "\<lparr>UpdateTodoDto.title = Some ''x'', UpdateTodoDto.isCompleted = None,
        own_id = Some (Fin 1), own_createdAt = None, own_updatedAt = None\<rparr>" 30]
  by (simp add: TodoService_new_def create_below_limit strict_eq_def Let_def)

text \<open>
  Claim C2. When \<open>getById\<close> (\<open>findOne\<close>) finds a record for the id, \<open>update\<close> with a patch of
  the declared shape (an optional \<open>title\<close>, an optional \<open>isCompleted\<close>) returns that record with
  the fields of the patch that are present overwritten and \<open>updatedAt\<close> set to the clock
  reading; \<open>todo_id\<close> and \<open>createdAt\<close> stay, the record is replaced at its position of the
  array, every other position and the id counter stay as they were. With the empty patch
  only \<open>updatedAt\<close> changes. For a DTO with further properties the same holds with the
  fields of the record that these properties name overwritten as well.
\<close>

theorem update_changes_patch_and_updatedAt:
  assumes "TodoService_findOne s k = Some todo"
  shows "\<exists>i<length (todos s). todos s ! i = todo \<and>
           TodoService_update s k (patch t c) now =
             (s\<lparr>todos := (todos s)[i := todo
                  \<lparr>title := (case t of None \<Rightarrow> title todo | Some x \<Rightarrow> x),
                   isCompleted := (case c of None \<Rightarrow> isCompleted todo | Some b \<Rightarrow> b),
                   updatedAt := now\<rparr>]\<rparr>,
              Some (todo
                  \<lparr>title := (case t of None \<Rightarrow> title todo | Some x \<Rightarrow> x),
                   isCompleted := (case c of None \<Rightarrow> isCompleted todo | Some b \<Rightarrow> b),
                   updatedAt := now\<rparr>)) \<and>
           TodoService_update s k (patch None None) now =
             (s\<lparr>todos := (todos s)[i := todo\<lparr>updatedAt := now\<rparr>]\<rparr>,
              Some (todo\<lparr>updatedAt := now\<rparr>)) \<and>
           TodoService_update s k dto now =
             (s\<lparr>todos := (todos s)[i := todo
                  \<lparr>todo_id := (case own_id dto of None \<Rightarrow> todo_id todo | Some j \<Rightarrow> j),
                   title := (case UpdateTodoDto.title dto of
                               None \<Rightarrow> title todo | Some x \<Rightarrow> x),
                   isCompleted := (case UpdateTodoDto.isCompleted dto of
                               None \<Rightarrow> isCompleted todo | Some b \<Rightarrow> b),
                   createdAt := (case own_createdAt dto of
                               None \<Rightarrow> createdAt todo | Some d \<Rightarrow> d),
                   updatedAt := now\<rparr>]\<rparr>,
              Some (todo
                  \<lparr>todo_id := (case own_id dto of None \<Rightarrow> todo_id todo | Some j \<Rightarrow> j),
                   title := (case UpdateTodoDto.title dto of
                               None \<Rightarrow> title todo | Some x \<Rightarrow> x),
                   isCompleted := (case UpdateTodoDto.isCompleted dto of
                               None \<Rightarrow> isCompleted todo | Some b \<Rightarrow> b),
                   createdAt := (case own_createdAt dto of
                               None \<Rightarrow> createdAt todo | Some d \<Rightarrow> d),
                   updatedAt := now\<rparr>))"
proof -
  let ?P = "\<lambda>todo. strict_eq (todo_id todo) k"
  from assms have found: "find ?P (todos s) = Some todo"
    by (simp add: TodoService_findOne_def)
  from mutate_first_list_update [OF found] obtain i where i: "i < length (todos s)"
    and at: "todos s ! i = todo"
    and upd: "\<forall>f. mutate_first ?P f (todos s) = (todos s)[i := f todo]"
    by blast
  from assms upd have any: "TodoService_update s k dto' now =
      (s\<lparr>todos := (todos s)[i := Object_assign todo dto' now]\<rparr>,
       Some (Object_assign todo dto' now))" for dto'
    by (simp add: TodoService_update_def)
  have "Object_assign todo (patch None None) now = todo\<lparr>updatedAt := now\<rparr>"
    by (simp add: Object_assign_patch)
  with i at show ?thesis
    unfolding any
    by (intro exI [of _ i]) (simp add: Object_assign_patch, simp add: Object_assign_eq)
qed

text \<open>Two records; completing record 1 at time 30 leaves its title and record 2 alone.\<close>

theorem update_changes_patch_and_updatedAt_witness:
  "TodoService_findOne (fst (run TodoService_new
      [Create \<lparr>CreateTodoDto.title = ''buy milk''\<rparr> 10 10,
       Create \<lparr>CreateTodoDto.title = ''walk dog''\<rparr> 20 20])) (Fin 1) =
     Some \<lparr>todo_id = Fin 1, title = ''buy milk'', isCompleted = False,
       createdAt = 10, updatedAt = 10\<rparr> \<and>
   TodoService_update (fst (run TodoService_new
      [Create \<lparr>CreateTodoDto.title = ''buy milk''\<rparr> 10 10,
       Create \<lparr>CreateTodoDto.title = ''walk dog''\<rparr> 20 20])) (Fin 1) (patch None (Some True)) 30 =
   (\<lparr>todos = [\<lparr>todo_id = Fin 1, title = ''buy milk'', isCompleted = True,
                createdAt = 10, updatedAt = 30\<rparr>,
              \<lparr>todo_id = Fin 2, title = ''walk dog'', isCompleted = False,
                createdAt = 20, updatedAt = 20\<rparr>],
      idCounter = Fin 3\<rparr>,
    Some \<lparr>todo_id = Fin 1, title = ''buy milk'', isCompleted = True,
       createdAt = 10, updatedAt = 30\<rparr>)"
  using update_changes_patch_and_updatedAt [of "(fst (run TodoService_new
      [Create \<lparr>CreateTodoDto.title = ''buy milk''\<rparr> 10 10,
       Create \<lparr>CreateTodoDto.title = ''walk dog''\<rparr> 20 20]))" "Fin 1"
      "\<lparr>todo_id = Fin 1, title = ''buy milk'', isCompleted = False,
       createdAt = 10, updatedAt = 10\<rparr>" None "Some True" 30]
  by (simp add: TodoService_new_def create_below_limit TodoService_findOne_def
      TodoService_update_def Object_assign_def patch_def strict_eq_def Let_def)

subsection \<open>Remove\<close>

lemma remove_drops_one:
  assumes "ids_ordered g n r" and "snd (TodoService_remove r k)"
  shows "\<exists>i<length (todos r). strict_eq (todo_id (todos r ! i)) k \<and>
     todos (fst (TodoService_remove r k)) = take i (todos r) @ drop (Suc i) (todos r)"
proof -
  from assms(2) obtain todo where "todo \<in> set (todos r)" "strict_eq (todo_id todo) k"
    by (auto simp: snd_remove_iff)
  then have k: "k \<noteq> NaN" and "\<exists>x. x \<in> set (todos r) \<and> todo_id x = k"
    by (auto simp: strict_eq_def)
  then obtain t where t: "find (\<lambda>x. todo_id x = k) (todos r) = Some t"
    by (cases "find (\<lambda>x. todo_id x = k) (todos r)") (auto simp: find_None_iff)
  from assms(1) have "distinct (map todo_id (todos r))"
    by (rule ids_ordered_distinct)
  from filter_drops_one [OF this t] obtain i where i: "i < length (todos r)"
    and at: "todos r ! i = t"
    and flt: "filter (\<lambda>x. todo_id x \<noteq> k) (todos r) = take i (todos r) @ drop (Suc i) (todos r)"
    by blast
  from t have "todo_id t = k"
    by (auto simp: find_Some_iff)
  with at k have "strict_eq (todo_id (todos r ! i)) k"
    by (simp add: strict_eq_def)
  moreover from k have "filter (\<lambda>todo. \<not> strict_eq (todo_id todo) k) (todos r) =
      filter (\<lambda>x. todo_id x \<noteq> k) (todos r)"
    by (intro filter_cong) (auto simp: strict_eq_def)
  with flt have "todos (fst (TodoService_remove r k)) = take i (todos r) @ drop (Suc i) (todos r)"
    by (simp add: todos_remove)
  ultimately show ?thesis
    using i by blast
qed

lemma removed_id_not_reused:
  assumes "ids_ordered g (Suc 0) r" and "snd (TodoService_remove r k)"
  shows "todo_id (snd (TodoService_create (fst (run (fst (TodoService_remove r k)) cs))
      dto now1 now2)) \<noteq> k"
proof -
  from assms(1) have c: "idCounter r = Fin (of_nat g)" and g: "g \<le> counter_limit"
    by (simp_all add: ids_ordered_def)
  from assms(2) obtain todo where "todo \<in> set (todos r)" "strict_eq (todo_id todo) k"
    by (auto simp: snd_remove_iff)
  with assms(1) ids_ordered_below [of g "Suc 0" r todo] have less: "num_less k (Fin (of_nat g))"
    by (simp add: strict_eq_def)
  from c have "idCounter (fst (TodoService_remove r k)) = Fin (of_nat g)"
    by (simp add: idCounter_remove)
  from run_counter [OF this g, of cs]
  have "idCounter (fst (run (fst (TodoService_remove r k)) cs)) =
      Fin (of_nat (min (g + length (filter is_Create cs)) counter_limit))" .
  moreover from g have "g \<le> min (g + length (filter is_Create cs)) counter_limit"
    by simp
  ultimately show ?thesis
    using less by (auto simp: todo_id_create)
qed

text \<open>
  After an update whose body has the id 1 of its own, two records have the id 1, and
  \<open>remove\<close> takes both out. And with the counter at \<open>2 ^ 53\<close>, a record is created under
  the id \<open>2 ^ 53\<close> and removed, and the next record gets the id \<open>2 ^ 53\<close> again.
\<close>

theorem remove_counterexample:
  "map todo_id (todos (fst (run TodoService_new
      [Create \<lparr>CreateTodoDto.title = ''buy milk''\<rparr> 10 10,
       Create \<lparr>CreateTodoDto.title = ''walk dog''\<rparr> 20 20,
       Update (Fin 2) \<lparr>UpdateTodoDto.title = None, UpdateTodoDto.isCompleted = None,
         own_id = Some (Fin 1), own_createdAt = None, own_updatedAt = None\<rparr> 30]))) = [Fin 1, Fin 1] \<and>
   TodoService_remove (fst (run TodoService_new
      [Create \<lparr>CreateTodoDto.title = ''buy milk''\<rparr> 10 10,
       Create \<lparr>CreateTodoDto.title = ''walk dog''\<rparr> 20 20,
       Update (Fin 2) \<lparr>UpdateTodoDto.title = None, UpdateTodoDto.isCompleted = None,
         own_id = Some (Fin 1), own_createdAt = None, own_updatedAt = None\<rparr> 30])) (Fin 1) =
     (\<lparr>todos = [], idCounter = Fin 3\<rparr>, True) \<and>
   fst (run TodoService_new (churn (2 ^ 53 - 1) 1 @
      [Create \<lparr>CreateTodoDto.title = ''buy milk''\<rparr> 10 10])) =
     \<lparr>todos = [\<lparr>todo_id = Fin (2 ^ 53), title = ''buy milk'', isCompleted = False,
                createdAt = 10, updatedAt = 10\<rparr>], idCounter = Fin (2 ^ 53)\<rparr> \<and>
   TodoService_remove (fst (run TodoService_new (churn (2 ^ 53 - 1) 1 @
      [Create \<lparr>CreateTodoDto.title = ''buy milk''\<rparr> 10 10]))) (Fin (2 ^ 53)) =
     (\<lparr>todos = [], idCounter = Fin (2 ^ 53)\<rparr>, True) \<and>
   todo_id (snd (TodoService_create (fst (TodoService_remove (fst (run TodoService_new
      (churn (2 ^ 53 - 1) 1 @ [Create \<lparr>CreateTodoDto.title = ''buy milk''\<rparr> 10 10])))
      (Fin (2 ^ 53)))) \<lparr>CreateTodoDto.title = ''walk dog''\<rparr> 20 20)) = Fin (2 ^ 53)"
proof -
  have "fst (run TodoService_new (churn (2 ^ 53 - 1) 1 @
      [Create \<lparr>CreateTodoDto.title = ''buy milk''\<rparr> 10 10])) =
     \<lparr>todos = [\<lparr>todo_id = Fin (2 ^ 53), title = ''buy milk'', isCompleted = False,
                createdAt = 10, updatedAt = 10\<rparr>], idCounter = Fin (2 ^ 53)\<rparr>"
    by (simp only: run_append run_churn_new fst_conv) (simp add: create_at_limit)
  then show ?thesis
    by (simp add: TodoService_new_def create_below_limit create_at_limit
        TodoService_update_def TodoService_remove_def TodoService_findOne_def
        Object_assign_def strict_eq_def Let_def del: run.simps)
      (simp add: TodoService_new_def create_below_limit TodoService_update_def
        TodoService_findOne_def Object_assign_def strict_eq_def Let_def)
qed

text \<open>
  Claim C5, as the service has it. For every service \<open>s\<close> and id \<open>k\<close>: when no record has
  the id, \<open>remove\<close> returns \<open>False\<close> and the service unchanged; when a record has it,
  \<open>remove\<close> returns \<open>True\<close> and keeps, in their order, the records with another id; after
  \<open>remove\<close> a lookup of the id finds nothing. For a service \<open>r\<close> that calls have made from
  a new one, with no id in the body of an update: when at most \<open>2 ^ 53\<close> records have been
  created, ids are unique and a successful \<open>remove\<close> takes exactly one record out of the
  array; and when fewer than \<open>2 ^ 53\<close> records have been created, whatever calls follow,
  a later \<open>create\<close> does not return the removed id.
\<close>

theorem remove_effect:
  assumes "r = fst (run TodoService_new cs)"
  shows "((\<forall>todo\<in>set (todos s). \<not> strict_eq (todo_id todo) k) \<longrightarrow>
            TodoService_remove s k = (s, False)) \<and>
         ((\<exists>todo\<in>set (todos s). strict_eq (todo_id todo) k) \<longrightarrow>
            TodoService_remove s k =
              (s\<lparr>todos := filter (\<lambda>todo. \<not> strict_eq (todo_id todo) k) (todos s)\<rparr>, True)) \<and>
         TodoService_findOne (fst (TodoService_remove s k)) k = None \<and>
         (snd (TodoService_remove r k) \<and> \<not> list_ex carries_id cs \<and>
            length (filter is_Create cs) \<le> 2 ^ 53 \<longrightarrow>
            (\<exists>i<length (todos r). strict_eq (todo_id (todos r ! i)) k \<and>
               todos (fst (TodoService_remove r k)) =
                 take i (todos r) @ drop (Suc i) (todos r))) \<and>
         (snd (TodoService_remove r k) \<and> \<not> list_ex carries_id cs \<and>
            length (filter is_Create cs) < 2 ^ 53 \<longrightarrow>
            todo_id (snd (TodoService_create (fst (run (fst (TodoService_remove r k)) cs'))
               dto now1 now2)) \<noteq> k)"
proof -
  let ?n = "length (filter is_Create cs)"
  have one: "\<exists>i<length (todos r). strict_eq (todo_id (todos r ! i)) k \<and>
      todos (fst (TodoService_remove r k)) = take i (todos r) @ drop (Suc i) (todos r)"
    if "snd (TodoService_remove r k)" "\<not> list_ex carries_id cs" "?n \<le> 2 ^ 53"
  proof -
    from that(3) have "?n + 0 \<le> counter_limit"
      by (simp add: counter_limit_def)
    then have "ids_ordered 1 (?n + 0) TodoService_new"
      by (rule ids_ordered_new)
    from ids_ordered_run [OF this that(2)] have "ids_ordered (1 + ?n) 0 r"
      unfolding assms .
    then show ?thesis using that(1) by (rule remove_drops_one)
  qed
  have fresh: "todo_id (snd (TodoService_create (fst (run (fst (TodoService_remove r k)) cs'))
      dto now1 now2)) \<noteq> k"
    if "snd (TodoService_remove r k)" "\<not> list_ex carries_id cs" "?n < 2 ^ 53"
  proof -
    from that(3) have "?n + Suc 0 \<le> counter_limit"
      by (simp add: counter_limit_def)
    then have "ids_ordered 1 (?n + Suc 0) TodoService_new"
      by (rule ids_ordered_new)
    from ids_ordered_run [OF this that(2)] have "ids_ordered (1 + ?n) (Suc 0) r"
      unfolding assms .
    then show ?thesis using that(1) by (rule removed_id_not_reused)
  qed
  from one fresh show ?thesis
    by (simp add: remove_not_found remove_found findOne_remove_same)
qed

text \<open>
  Two records: removing id 99 finds nothing; removing id 1 leaves record 2; after record 2
  is removed as well, the next record gets id 3, not 1.
\<close>

theorem remove_effect_witness:
  "TodoService_remove (fst (run TodoService_new
      [Create \<lparr>CreateTodoDto.title = ''buy milk''\<rparr> 10 10,
       Create \<lparr>CreateTodoDto.title = ''walk dog''\<rparr> 20 20])) (Fin 99) = ((fst (run TodoService_new
      [Create \<lparr>CreateTodoDto.title = ''buy milk''\<rparr> 10 10,
       Create \<lparr>CreateTodoDto.title = ''walk dog''\<rparr> 20 20])), False) \<and>
   list_ex carries_id
      [Create \<lparr>CreateTodoDto.title = ''buy milk''\<rparr> 10 10,
       Create \<lparr>CreateTodoDto.title = ''walk dog''\<rparr> 20 20] = False \<and>
   length (filter is_Create
      [Create \<lparr>CreateTodoDto.title = ''buy milk''\<rparr> 10 10,
       Create \<lparr>CreateTodoDto.title = ''walk dog''\<rparr> 20 20]) = 2 \<and>
   TodoService_remove (fst (run TodoService_new
      [Create \<lparr>CreateTodoDto.title = ''buy milk''\<rparr> 10 10,
       Create \<lparr>CreateTodoDto.title = ''walk dog''\<rparr> 20 20])) (Fin 1) =
     (\<lparr>todos = [\<lparr>todo_id = Fin 2, title = ''walk dog'', isCompleted = False,
                  createdAt = 20, updatedAt = 20\<rparr>], idCounter = Fin 3\<rparr>, True) \<and>
   TodoService_findOne (fst (TodoService_remove (fst (run TodoService_new
      [Create \<lparr>CreateTodoDto.title = ''buy milk''\<rparr> 10 10,
       Create \<lparr>CreateTodoDto.title = ''walk dog''\<rparr> 20 20])) (Fin 1))) (Fin 1) = None \<and>
   todo_id (snd (TodoService_create (fst (run (fst (TodoService_remove (fst (run TodoService_new
      [Create \<lparr>CreateTodoDto.title = ''buy milk''\<rparr> 10 10,
       Create \<lparr>CreateTodoDto.title = ''walk dog''\<rparr> 20 20])) (Fin 1)))
       [Remove (Fin 2)])) \<lparr>CreateTodoDto.title = ''post letter''\<rparr> 40 40)) = Fin 3"
  using remove_effect [where r = "(fst (run TodoService_new
      [Create \<lparr>CreateTodoDto.title = ''buy milk''\<rparr> 10 10,
       Create \<lparr>CreateTodoDto.title = ''walk dog''\<rparr> 20 20]))" and cs = "[Create \<lparr>CreateTodoDto.title = ''buy milk''\<rparr> 10 10,
       Create \<lparr>CreateTodoDto.title = ''walk dog''\<rparr> 20 20]" and s = "(fst (run TodoService_new
      [Create \<lparr>CreateTodoDto.title = ''buy milk''\<rparr> 10 10,
       Create \<lparr>CreateTodoDto.title = ''walk dog''\<rparr> 20 20]))" and k = "Fin 99"]
    remove_effect [where r = "(fst (run TodoService_new
      [Create \<lparr>CreateTodoDto.title = ''buy milk''\<rparr> 10 10,
       Create \<lparr>CreateTodoDto.title = ''walk dog''\<rparr> 20 20]))" and cs = "[Create \<lparr>CreateTodoDto.title = ''buy milk''\<rparr> 10 10,
       Create \<lparr>CreateTodoDto.title = ''walk dog''\<rparr> 20 20]" and s = "(fst (run TodoService_new
      [Create \<lparr>CreateTodoDto.title = ''buy milk''\<rparr> 10 10,
       Create \<lparr>CreateTodoDto.title = ''walk dog''\<rparr> 20 20]))" and k = "Fin 1"
      and cs' = "[Remove (Fin 2)]" and dto = "\<lparr>CreateTodoDto.title = ''post letter''\<rparr>"
      and ?now1.0 = 40 and ?now2.0 = 40]
  by (simp add: TodoService_new_def create_below_limit TodoService_remove_def
      TodoService_findOne_def strict_eq_def Let_def)

subsection \<open>Lookup by id\<close>

lemma findOne_create:
  assumes "ids_ordered g (Suc n) s"
  shows "TodoService_findOne (fst (TodoService_create s dto now1 now2)) k =
     (if k = idCounter s then Some (snd (TodoService_create s dto now1 now2))
      else TodoService_findOne s k)"
proof -
  from assms have c: "idCounter s = Fin (of_nat g)"
    by (simp add: ids_ordered_def)
  from assms have "\<forall>todo\<in>set (todos s). todo_id todo \<noteq> Fin (of_nat g)"
    using ids_ordered_below [of g "Suc n" s] num_less_irrefl by metis
  then have "find (\<lambda>todo. strict_eq (todo_id todo) (Fin (of_nat g))) (todos s) = None"
    by (simp add: find_None_iff strict_eq_def)
  with c show ?thesis
    by (auto simp: TodoService_findOne_def TodoService_create_def Let_def find_append
        strict_eq_def split: option.splits simp del: num_succ.simps)
qed

lemma findOne_update:
  assumes "TodoService_findOne s k' = Some todo" and "own_id dto = None"
  shows "TodoService_findOne (fst (TodoService_update s k' dto now)) k =
     (if k = k' then Some (Object_assign todo dto now) else TodoService_findOne s k)"
proof (cases "k = k'")
  case True
  have "find (\<lambda>todo. strict_eq (todo_id todo) k')
      (mutate_first (\<lambda>todo. strict_eq (todo_id todo) k')
         (\<lambda>todo. Object_assign todo dto now) (todos s)) =
      map_option (\<lambda>todo. Object_assign todo dto now)
        (find (\<lambda>todo. strict_eq (todo_id todo) k') (todos s))"
    by (rule find_mutate_first_same) (simp add: todo_id_Object_assign assms(2))
  with assms True show ?thesis
    by (simp add: TodoService_findOne_def TodoService_update_def)
next
  case False
  have "find (\<lambda>todo. strict_eq (todo_id todo) k)
      (mutate_first (\<lambda>todo. strict_eq (todo_id todo) k')
         (\<lambda>todo. Object_assign todo dto now) (todos s)) =
      find (\<lambda>todo. strict_eq (todo_id todo) k) (todos s)"
    using False
    by (intro find_mutate_first_other) (auto simp: todo_id_Object_assign assms(2) strict_eq_def)
  with assms False show ?thesis
    by (simp add: TodoService_findOne_def TodoService_update_def)
qed

lemma findOne_remove:
  "TodoService_findOne (fst (TodoService_remove s k')) k =
     (if strict_eq k k' then None else TodoService_findOne s k)"
proof (cases "strict_eq k k'")
  case True
  then have "k = k'" by (simp add: strict_eq_def)
  with True show ?thesis by (simp add: findOne_remove_same)
next
  case False
  have "find (\<lambda>todo. strict_eq (todo_id todo) k)
      (filter (\<lambda>todo. \<not> strict_eq (todo_id todo) k') (todos s)) =
      find (\<lambda>todo. strict_eq (todo_id todo) k) (todos s)"
    using False by (intro find_filter_other) (auto simp: strict_eq_def)
  with False show ?thesis
    by (simp add: TodoService_findOne_def todos_remove)
qed

lemma findOne_invoke:
  assumes "ids_ordered g (length (filter is_Create [c]) + n) s" and "\<not> carries_id c"
    and "\<forall>k. TodoService_findOne s k = m k"
  shows "TodoService_findOne (fst (invoke s c)) k = produced_step m (c, snd (invoke s c)) k"
proof (cases c)
  case (Create dto now1 now2)
  with assms show ?thesis
    by (simp add: split_beta findOne_create todo_id_create)
next
  case FindAll
  with assms show ?thesis by simp
next
  case (FindOne k')
  with assms show ?thesis by simp
next
  case (Update k' dto now)
  with assms(2) have dto: "own_id dto = None" by simp
  show ?thesis
  proof (cases "TodoService_findOne s k'")
    case None
    with Update assms show ?thesis
      by (simp add: TodoService_update_def)
  next
    case (Some todo)
    then have "strict_eq (todo_id todo) k'"
      by (auto simp: TodoService_findOne_def find_Some_iff)
    then have "todo_id todo = k'" by (simp add: strict_eq_def)
    with Some have "snd (TodoService_update s k' dto now) = Some (Object_assign todo dto now)"
      by (simp add: TodoService_update_def)
    with Update assms(3) Some dto \<open>todo_id todo = k'\<close> show ?thesis
      by (simp add: split_beta findOne_update todo_id_Object_assign)
  qed
next
  case (Remove k')
  show ?thesis
  proof (cases "snd (TodoService_remove s k')")
    case True
    then have "k' \<noteq> NaN"
      by (auto simp: snd_remove_iff strict_eq_def)
    with Remove True assms(3) show ?thesis
      by (auto simp: split_beta findOne_remove strict_eq_def findOne_NaN)
  next
    case False
    then have "TodoService_remove s k' = (s, False)"
      by (simp add: snd_remove_iff remove_not_found)
    with Remove assms(3) show ?thesis by simp
  qed
qed

lemma findOne_run:
  assumes "ids_ordered g (length (filter is_Create cs) + n) s" and "\<not> list_ex carries_id cs"
    and "\<forall>k. TodoService_findOne s k = m k"
  shows "TodoService_findOne (fst (run s cs)) k = foldl produced_step m (snd (run s cs)) k"
  using assms
proof (induction cs arbitrary: s m g)
  case Nil
  then show ?case by simp
next
  case (Cons c cs)
  let ?s' = "fst (invoke s c)" and ?m' = "produced_step m (c, snd (invoke s c))"
  let ?c = "length (filter is_Create [c])" and ?cs = "length (filter is_Create cs)"
  have len: "length (filter is_Create (c # cs)) + n = ?c + (?cs + n)" by simp
  from Cons.prems(1) have ord: "ids_ordered g (?c + (?cs + n)) s"
    unfolding len .
  from Cons.prems(2) have c: "\<not> carries_id c" and cs: "\<not> list_ex carries_id cs"
    by simp_all
  from ord c have "ids_ordered (g + ?c) (?cs + n) ?s'"
    by (rule ids_ordered_invoke)
  moreover note cs
  moreover have "\<forall>k. TodoService_findOne ?s' k = ?m' k"
    using findOne_invoke [OF ord c Cons.prems(3)] by blast
  ultimately have "TodoService_findOne (fst (run ?s' cs)) k =
      foldl produced_step ?m' (snd (run ?s' cs)) k"
    by (rule Cons.IH)
  then show ?case
    by (simp add: split_beta)
qed

text \<open>
  Two records are created, and the body of an update of record 2 has the id 1 of its own:
  the record that the update returns has the id 1, and a lookup of the id 1 returns
  record 1, the first of the two in the array, while a lookup of the id 2, the id that
  the update was made for, finds nothing. And with the counter at \<open>2 ^ 53\<close>, two
  records are created, both under the id \<open>2 ^ 53\<close>: a lookup of this id returns the first
  of them, not the one created last.
\<close>

theorem lookup_counterexample:
  "TodoService_findOne (fst (run TodoService_new
      [Create \<lparr>CreateTodoDto.title = ''buy milk''\<rparr> 10 10,
       Create \<lparr>CreateTodoDto.title = ''walk dog''\<rparr> 20 20,
       Update (Fin 2) \<lparr>UpdateTodoDto.title = None, UpdateTodoDto.isCompleted = None,
         own_id = Some (Fin 1), own_createdAt = None, own_updatedAt = None\<rparr> 30])) (Fin 1) =
     Some \<lparr>todo_id = Fin 1, title = ''buy milk'', isCompleted = False,
       createdAt = 10, updatedAt = 10\<rparr> \<and>
   most_recently_produced (snd (run TodoService_new
      [Create \<lparr>CreateTodoDto.title = ''buy milk''\<rparr> 10 10,
       Create \<lparr>CreateTodoDto.title = ''walk dog''\<rparr> 20 20,
       Update (Fin 2) \<lparr>UpdateTodoDto.title = None, UpdateTodoDto.isCompleted = None,
         own_id = Some (Fin 1), own_createdAt = None, own_updatedAt = None\<rparr> 30])) (Fin 1) =
     Some \<lparr>todo_id = Fin 1, title = ''walk dog'', isCompleted = False,
       createdAt = 20, updatedAt = 30\<rparr> \<and>
   TodoService_findOne (fst (run TodoService_new
      [Create \<lparr>CreateTodoDto.title = ''buy milk''\<rparr> 10 10,
       Create \<lparr>CreateTodoDto.title = ''walk dog''\<rparr> 20 20,
       Update (Fin 2) \<lparr>UpdateTodoDto.title = None, UpdateTodoDto.isCompleted = None,
         own_id = Some (Fin 1), own_createdAt = None, own_updatedAt = None\<rparr> 30])) (Fin 2) = None \<and>
   TodoService_findOne (fst (run TodoService_new (churn (2 ^ 53 - 1) 1 @
      [Create \<lparr>CreateTodoDto.title = ''buy milk''\<rparr> 10 10,
       Create \<lparr>CreateTodoDto.title = ''walk dog''\<rparr> 20 20]))) (Fin (2 ^ 53)) =
     Some \<lparr>todo_id = Fin (2 ^ 53), title = ''buy milk'', isCompleted = False,
       createdAt = 10, updatedAt = 10\<rparr> \<and>
   most_recently_produced (snd (run TodoService_new (churn (2 ^ 53 - 1) 1 @
      [Create \<lparr>CreateTodoDto.title = ''buy milk''\<rparr> 10 10,
       Create \<lparr>CreateTodoDto.title = ''walk dog''\<rparr> 20 20]))) (Fin (2 ^ 53)) =
     Some \<lparr>todo_id = Fin (2 ^ 53), title = ''walk dog'', isCompleted = False,
       createdAt = 20, updatedAt = 20\<rparr>"
proof -
  have "TodoService_findOne (fst (run TodoService_new (churn (2 ^ 53 - 1) 1 @
      [Create \<lparr>CreateTodoDto.title = ''buy milk''\<rparr> 10 10,
       Create \<lparr>CreateTodoDto.title = ''walk dog''\<rparr> 20 20]))) (Fin (2 ^ 53)) =
     Some \<lparr>todo_id = Fin (2 ^ 53), title = ''buy milk'', isCompleted = False,
       createdAt = 10, updatedAt = 10\<rparr>"
    by (simp only: run_append run_churn_new fst_conv)
      (simp add: create_at_limit TodoService_findOne_def strict_eq_def)
  moreover have "most_recently_produced (snd (run TodoService_new (churn (2 ^ 53 - 1) 1 @
      [Create \<lparr>CreateTodoDto.title = ''buy milk''\<rparr> 10 10,
       Create \<lparr>CreateTodoDto.title = ''walk dog''\<rparr> 20 20]))) (Fin (2 ^ 53)) =
     Some \<lparr>todo_id = Fin (2 ^ 53), title = ''walk dog'', isCompleted = False,
       createdAt = 20, updatedAt = 20\<rparr>"
    by (simp only: run_append run_churn_new snd_conv most_recently_produced_def foldl_append)
      (simp add: create_at_limit)
  ultimately show ?thesis
    by (simp add: TodoService_new_def create_below_limit TodoService_update_def
        TodoService_findOne_def Object_assign_def most_recently_produced_def
        strict_eq_def Let_def)
qed

text \<open>
  Claim C3, as the service has it. After any sequence of calls on a new service in which
  no update has an id in its body and at most \<open>2 ^ 53\<close> records are created, \<open>getById\<close>
  (\<open>findOne\<close>) returns for every id, \<open>NaN\<close> and the numbers that are no id included, the
  record that \<open>create\<close> or \<open>update\<close> has most recently returned for that id, with the
  \<open>updatedAt\<close> of that update, when the record has not been removed since, and not-found
  (\<open>None\<close>) otherwise. The result is an option: \<open>findOne\<close> has no error to raise.
\<close>

theorem findOne_most_recently_produced:
  assumes "\<not> list_ex carries_id cs" and "length (filter is_Create cs) \<le> 2 ^ 53"
  shows "TodoService_findOne (fst (run TodoService_new cs)) k =
     most_recently_produced (snd (run TodoService_new cs)) k"
proof -
  from assms(2) have "length (filter is_Create cs) + 0 \<le> counter_limit"
    by (simp add: counter_limit_def)
  then have "ids_ordered 1 (length (filter is_Create cs) + 0) TodoService_new"
    by (rule ids_ordered_new)
  moreover note assms(1)
  moreover have "\<forall>k. TodoService_findOne TodoService_new k = Map.empty k"
    by (simp add: TodoService_findOne_def TodoService_new_def)
  ultimately show ?thesis
    unfolding most_recently_produced_def by (rule findOne_run)
qed

text \<open>
  Record 1 is created, then completed at time 30; record 2 is created, then removed. The
  lookup of id 1 gives the completed record, the lookup of id 2 gives nothing.
\<close>

theorem findOne_most_recently_produced_witness:
  "list_ex carries_id
      [Create \<lparr>CreateTodoDto.title = ''buy milk''\<rparr> 10 10,
       Create \<lparr>CreateTodoDto.title = ''walk dog''\<rparr> 20 20,
       Update (Fin 1) (patch None (Some True)) 30,
       Remove (Fin 2)] = False \<and>
   length (filter is_Create
      [Create \<lparr>CreateTodoDto.title = ''buy milk''\<rparr> 10 10,
       Create \<lparr>CreateTodoDto.title = ''walk dog''\<rparr> 20 20,
       Update (Fin 1) (patch None (Some True)) 30,
       Remove (Fin 2)]) = 2 \<and>
   TodoService_findOne (fst (run TodoService_new
      [Create \<lparr>CreateTodoDto.title = ''buy milk''\<rparr> 10 10,
       Create \<lparr>CreateTodoDto.title = ''walk dog''\<rparr> 20 20,
       Update (Fin 1) (patch None (Some True)) 30,
       Remove (Fin 2)])) (Fin 1) =
     Some \<lparr>todo_id = Fin 1, title = ''buy milk'', isCompleted = True,
       createdAt = 10, updatedAt = 30\<rparr> \<and>
   most_recently_produced (snd (run TodoService_new
      [Create \<lparr>CreateTodoDto.title = ''buy milk''\<rparr> 10 10,
       Create \<lparr>CreateTodoDto.title = ''walk dog''\<rparr> 20 20,
       Update (Fin 1) (patch None (Some True)) 30,
       Remove (Fin 2)])) (Fin 1) =
     Some \<lparr>todo_id = Fin 1, title = ''buy milk'', isCompleted = True,
       createdAt = 10, updatedAt = 30\<rparr> \<and>
   TodoService_findOne (fst (run TodoService_new
      [Create \<lparr>CreateTodoDto.title = ''buy milk''\<rparr> 10 10,
       Create \<lparr>CreateTodoDto.title = ''walk dog''\<rparr> 20 20,
       Update (Fin 1) (patch None (Some True)) 30,
       Remove (Fin 2)])) (Fin 2) = None"
  using findOne_most_recently_produced [of
      "[Create \<lparr>CreateTodoDto.title = ''buy milk''\<rparr> 10 10,
       Create \<lparr>CreateTodoDto.title = ''walk dog''\<rparr> 20 20,
       Update (Fin 1) (patch None (Some True)) 30,
       Remove (Fin 2)]" "Fin 1"]
  by (simp add: TodoService_new_def create_below_limit TodoService_update_def
      TodoService_remove_def TodoService_findOne_def Object_assign_def patch_def
      most_recently_produced_def strict_eq_def Let_def)

subsection \<open>Listing\<close>

lemma mutate_first_same:
  assumes "\<And>x. P x \<Longrightarrow> f x = x"
  shows "mutate_first P f xs = xs"
  using assms by (induction xs) simp_all

lemma ids_update_any:
  "map todo_id (todos (fst (TodoService_update s k dto now))) =
     insertion_step (map todo_id (todos s))
       (Update k dto now, Updated (snd (TodoService_update s k dto now)))"
proof (cases "TodoService_findOne s k")
  case None
  then show ?thesis by (simp add: update_None)
next
  case (Some todo)
  let ?P = "\<lambda>todo. strict_eq (todo_id todo) k"
  from Some have found: "find ?P (todos s) = Some todo"
    by (simp add: TodoService_findOne_def)
  have "map todo_id (mutate_first ?P (\<lambda>todo. Object_assign todo dto now) (todos s)) =
      mutate_first (\<lambda>i. strict_eq i k)
        (\<lambda>i. todo_id (Object_assign (the (find ?P (todos s))) dto now)) (map todo_id (todos s))"
    by (rule map_mutate_first_key) simp
  with found show ?thesis
    by (simp add: update_Some [OF Some])
qed

lemma ids_invoke:
  "map todo_id (todos (fst (invoke s c))) =
     insertion_step (map todo_id (todos s)) (c, snd (invoke s c))"
proof (cases c)
  case (Update k dto now)
  then show ?thesis
    using ids_update_any [of s k dto now] by (simp add: split_beta)
qed (simp_all add: split_beta todos_create ids_remove)

lemma ids_run:
  "map todo_id (todos (fst (run s cs))) =
     foldl insertion_step (map todo_id (todos s)) (snd (run s cs))"
proof (induction cs arbitrary: s)
  case Nil
  show ?case by simp
next
  case (Cons c cs)
  have "map todo_id (todos (fst (run (fst (invoke s c)) cs))) =
      foldl insertion_step (map todo_id (todos (fst (invoke s c))))
        (snd (run (fst (invoke s c)) cs))"
    by (rule Cons.IH)
  then show ?case
    by (simp add: split_beta ids_invoke del: invoke.simps)
qed

lemma insertion_step_no_remove:
  assumes "\<not> is_Remove c" and "\<not> carries_id c"
  shows "insertion_step ids (c, snd (invoke s c)) = ids @ created_ids [(c, snd (invoke s c))]"
proof (cases c)
  case (Update k dto now)
  with assms(2) have dto: "own_id dto = None" by simp
  show ?thesis
  proof (cases "TodoService_findOne s k")
    case None
    with Update show ?thesis by (simp add: update_None)
  next
    case (Some todo)
    then have "strict_eq (todo_id todo) k"
      by (auto simp: TodoService_findOne_def find_Some_iff)
    then have "mutate_first (\<lambda>i. strict_eq i k) (\<lambda>i. todo_id (Object_assign todo dto now)) ids
        = ids"
      by (intro mutate_first_same) (simp add: todo_id_Object_assign dto strict_eq_def)
    with Update show ?thesis by (simp add: update_Some [OF Some])
  qed
qed (use assms in \<open>simp_all add: split_beta\<close>)

lemma created_ids_Cons: "created_ids (e # es) = created_ids [e] @ created_ids es"
  using created_ids_append [of "[e]" es] by simp

lemma insertion_no_remove:
  assumes "\<not> list_ex is_Remove cs" and "\<not> list_ex carries_id cs"
  shows "foldl insertion_step ids (snd (run s cs)) = ids @ created_ids (snd (run s cs))"
  using assms
proof (induction cs arbitrary: s ids)
  case Nil
  show ?case by simp
next
  case (Cons c cs)
  let ?s' = "fst (invoke s c)" and ?r = "snd (invoke s c)"
  from Cons.prems have c: "\<not> is_Remove c" "\<not> carries_id c"
    and cs: "\<not> list_ex is_Remove cs" "\<not> list_ex carries_id cs"
    by simp_all
  have "foldl insertion_step ids (snd (run s (c # cs))) =
      foldl insertion_step (insertion_step ids (c, ?r)) (snd (run ?s' cs))"
    by (simp add: split_beta)
  also have "\<dots> = (ids @ created_ids [(c, ?r)]) @ created_ids (snd (run ?s' cs))"
    unfolding insertion_step_no_remove [OF c] by (rule Cons.IH [OF cs])
  also have "\<dots> = ids @ created_ids ((c, ?r) # snd (run ?s' cs))"
    using created_ids_Cons [of "(c, ?r)" "snd (run ?s' cs)"] by simp
  also have "\<dots> = ids @ created_ids (snd (run s (c # cs)))"
    by (simp add: split_beta)
  finally show ?case .
qed

lemma length_no_remove:
  assumes "\<not> list_ex is_Remove cs"
  shows "length (todos (fst (run s cs))) = length (todos s) + length (filter is_Create cs)"
  using assms
proof (induction cs arbitrary: s)
  case Nil
  show ?case by simp
next
  case (Cons c cs)
  from Cons.prems have "length (todos (fst (run (fst (invoke s c)) cs))) =
      length (todos (fst (invoke s c))) + length (filter is_Create cs)"
    by (intro Cons.IH) simp
  with Cons.prems show ?case
    by (cases c) (simp_all add: split_beta todos_create length_update)
qed

lemma todos_no_update_remove:
  assumes "\<not> list_ex is_Remove cs" and "\<not> list_ex is_Update cs"
  shows "todos (fst (run s cs)) = todos s @ created_todos (snd (run s cs))"
  using assms
proof (induction cs arbitrary: s)
  case Nil
  show ?case by simp
next
  case (Cons c cs)
  from Cons.prems have "todos (fst (run (fst (invoke s c)) cs)) =
      todos (fst (invoke s c)) @ created_todos (snd (run (fst (invoke s c)) cs))"
    by (intro Cons.IH) simp_all
  with Cons.prems show ?case
    by (cases c) (simp_all add: split_beta todos_create)
qed

text \<open>
  Claim C4. \<open>list\<close> (\<open>findAll\<close>) is total and returns the array. On a new service it is
  empty; \<open>create\<close> puts its record at the end; \<open>update\<close> with a patch of the declared shape
  keeps the sequence of ids as it is, and with any body keeps the length; \<open>remove\<close> keeps
  the records with another id in their order. So after any sequence of calls on a new
  service the ids listed are the ids in insertion order. When the sequence has no removal,
  the list is as long as the sequence has creations, and when no update has an id in its
  body either, the ids are the ids that the creations returned, in creation order; when
  the sequence has no removal and no update, the list is the list of the records that the
  creations returned.
\<close>

theorem findAll_insertion_order:
  "TodoService_findAll TodoService_new = [] \<and>
   TodoService_findAll (fst (TodoService_create s dto now1 now2)) =
     TodoService_findAll s @ [snd (TodoService_create s dto now1 now2)] \<and>
   map todo_id (TodoService_findAll (fst (TodoService_update s k (patch t c) now))) =
     map todo_id (TodoService_findAll s) \<and>
   length (TodoService_findAll (fst (TodoService_update s k body now))) =
     length (TodoService_findAll s) \<and>
   TodoService_findAll (fst (TodoService_remove s k)) =
     filter (\<lambda>todo. \<not> strict_eq (todo_id todo) k) (TodoService_findAll s) \<and>
   map todo_id (TodoService_findAll (fst (run TodoService_new cs))) =
     insertion_order (snd (run TodoService_new cs)) \<and>
   (\<not> list_ex is_Remove cs \<longrightarrow>
      length (TodoService_findAll (fst (run TodoService_new cs))) =
        length (filter is_Create cs)) \<and>
   (\<not> list_ex is_Remove cs \<and> \<not> list_ex carries_id cs \<longrightarrow>
      map todo_id (TodoService_findAll (fst (run TodoService_new cs))) =
        created_ids (snd (run TodoService_new cs))) \<and>
   (\<not> list_ex is_Remove cs \<and> \<not> list_ex is_Update cs \<longrightarrow>
      TodoService_findAll (fst (run TodoService_new cs)) =
        created_todos (snd (run TodoService_new cs)))"
proof -
  have new: "todos TodoService_new = []"
    by (simp add: TodoService_new_def)
  have order: "map todo_id (todos (fst (run TodoService_new cs))) =
      insertion_order (snd (run TodoService_new cs))"
    using ids_run [of TodoService_new cs] by (simp add: insertion_order_def new)
  have ids: "map todo_id (todos (fst (run TodoService_new cs))) =
      created_ids (snd (run TodoService_new cs))"
    if "\<not> list_ex is_Remove cs" "\<not> list_ex carries_id cs"
    using order insertion_no_remove [OF that, of "[]" TodoService_new]
    by (simp add: insertion_order_def)
  have len: "length (todos (fst (run TodoService_new cs))) = length (filter is_Create cs)"
    if "\<not> list_ex is_Remove cs"
    using length_no_remove [OF that, of TodoService_new] by (simp add: new)
  have all: "todos (fst (run TodoService_new cs)) = created_todos (snd (run TodoService_new cs))"
    if "\<not> list_ex is_Remove cs" "\<not> list_ex is_Update cs"
    using todos_no_update_remove [OF that, of TodoService_new] by (simp add: new)
  have shape: "map todo_id (todos (fst (TodoService_update s k (patch t c) now))) =
      map todo_id (todos s)"
    by (rule ids_update) (simp add: patch_def)
  show ?thesis
    unfolding TodoService_findAll_def
    using new order ids len all shape
    by (simp add: todos_create length_update todos_remove)
qed

text \<open>
  Two creations: the list is the two records. Two creations, an update and the removal of
  record 1, a third creation: the list has the ids 2 and 3, in this order. Two creations
  and an update of record 1 whose body has the id 7: the list has the ids 7 and 2.
\<close>

theorem findAll_insertion_order_witness:
  "list_ex is_Remove
      [Create \<lparr>CreateTodoDto.title = ''buy milk''\<rparr> 10 10,
       Create \<lparr>CreateTodoDto.title = ''walk dog''\<rparr> 20 20, FindAll] = False \<and>
   list_ex is_Update
      [Create \<lparr>CreateTodoDto.title = ''buy milk''\<rparr> 10 10,
       Create \<lparr>CreateTodoDto.title = ''walk dog''\<rparr> 20 20, FindAll] = False \<and>
   list_ex carries_id
      [Create \<lparr>CreateTodoDto.title = ''buy milk''\<rparr> 10 10,
       Create \<lparr>CreateTodoDto.title = ''walk dog''\<rparr> 20 20, FindAll] = False \<and>
   TodoService_findAll (fst (run TodoService_new
      [Create \<lparr>CreateTodoDto.title = ''buy milk''\<rparr> 10 10,
       Create \<lparr>CreateTodoDto.title = ''walk dog''\<rparr> 20 20, FindAll])) =
     [\<lparr>todo_id = Fin 1, title = ''buy milk'', isCompleted = False,
        createdAt = 10, updatedAt = 10\<rparr>,
      \<lparr>todo_id = Fin 2, title = ''walk dog'', isCompleted = False,
        createdAt = 20, updatedAt = 20\<rparr>] \<and>
   created_todos (snd (run TodoService_new
      [Create \<lparr>CreateTodoDto.title = ''buy milk''\<rparr> 10 10,
       Create \<lparr>CreateTodoDto.title = ''walk dog''\<rparr> 20 20, FindAll])) =
     [\<lparr>todo_id = Fin 1, title = ''buy milk'', isCompleted = False,
        createdAt = 10, updatedAt = 10\<rparr>,
      \<lparr>todo_id = Fin 2, title = ''walk dog'', isCompleted = False,
        createdAt = 20, updatedAt = 20\<rparr>] \<and>
   length (filter is_Create
      [Create \<lparr>CreateTodoDto.title = ''buy milk''\<rparr> 10 10,
       Create \<lparr>CreateTodoDto.title = ''walk dog''\<rparr> 20 20, FindAll]) = 2 \<and>
   map todo_id (TodoService_findAll (fst (run TodoService_new
      [Create \<lparr>CreateTodoDto.title = ''buy milk''\<rparr> 10 10,
       Create \<lparr>CreateTodoDto.title = ''walk dog''\<rparr> 20 20,
       Update (Fin 1) (patch None (Some True)) 30,
       Remove (Fin 1),
       Create \<lparr>CreateTodoDto.title = ''post letter''\<rparr> 40 40]))) = [Fin 2, Fin 3] \<and>
   insertion_order (snd (run TodoService_new
      [Create \<lparr>CreateTodoDto.title = ''buy milk''\<rparr> 10 10,
       Create \<lparr>CreateTodoDto.title = ''walk dog''\<rparr> 20 20,
       Update (Fin 1) (patch None (Some True)) 30,
       Remove (Fin 1),
       Create \<lparr>CreateTodoDto.title = ''post letter''\<rparr> 40 40])) = [Fin 2, Fin 3] \<and>
   map todo_id (TodoService_findAll (fst (run TodoService_new
      [Create \<lparr>CreateTodoDto.title = ''buy milk''\<rparr> 10 10,
       Create \<lparr>CreateTodoDto.title = ''walk dog''\<rparr> 20 20,
       Update (Fin 1) \<lparr>UpdateTodoDto.title = None, UpdateTodoDto.isCompleted = None,
         own_id = Some (Fin 7), own_createdAt = None, own_updatedAt = None\<rparr> 30]))) = [Fin 7, Fin 2] \<and>
   insertion_order (snd (run TodoService_new
      [Create \<lparr>CreateTodoDto.title = ''buy milk''\<rparr> 10 10,
       Create \<lparr>CreateTodoDto.title = ''walk dog''\<rparr> 20 20,
       Update (Fin 1) \<lparr>UpdateTodoDto.title = None, UpdateTodoDto.isCompleted = None,
         own_id = Some (Fin 7), own_createdAt = None, own_updatedAt = None\<rparr> 30])) = [Fin 7, Fin 2]"
  using findAll_insertion_order [where cs =
     "[Create \<lparr>CreateTodoDto.title = ''buy milk''\<rparr> 10 10,
       Create \<lparr>CreateTodoDto.title = ''walk dog''\<rparr> 20 20, FindAll]"]
    findAll_insertion_order [where cs =
     "[Create \<lparr>CreateTodoDto.title = ''buy milk''\<rparr> 10 10,
       Create \<lparr>CreateTodoDto.title = ''walk dog''\<rparr> 20 20,
       Update (Fin 1) (patch None (Some True)) 30,
       Remove (Fin 1),
       Create \<lparr>CreateTodoDto.title = ''post letter''\<rparr> 40 40]"]
    findAll_insertion_order [where cs =
     "[Create \<lparr>CreateTodoDto.title = ''buy milk''\<rparr> 10 10,
       Create \<lparr>CreateTodoDto.title = ''walk dog''\<rparr> 20 20,
       Update (Fin 1) \<lparr>UpdateTodoDto.title = None, UpdateTodoDto.isCompleted = None,
         own_id = Some (Fin 7), own_createdAt = None, own_updatedAt = None\<rparr> 30]"]
  by (simp add: TodoService_new_def create_below_limit TodoService_update_def
      TodoService_remove_def TodoService_findOne_def TodoService_findAll_def Object_assign_def
      patch_def insertion_order_def strict_eq_def Let_def)

subsection \<open>Titles\<close>

lemma titles_invoke:
  assumes "[] \<notin> set (map title (todos s))" and "[] \<notin> set (supplied_titles c)"
  shows "[] \<notin> set (map title (todos (fst (invoke s c))))"
proof (cases c)
  case (Create dto now1 now2)
  with assms show ?thesis
    by (auto simp: TodoService_create_def Let_def)
next
  case FindAll
  with assms show ?thesis by simp
next
  case (FindOne k)
  with assms show ?thesis by simp
next
  case (Update k dto now)
  have "title todo \<noteq> []" if "todo \<in> set (todos (fst (TodoService_update s k dto now)))" for todo
  proof -
    from that todos_update_subset [of s k dto now]
    consider "todo \<in> set (todos s)"
      | old where "old \<in> set (todos s)" "todo = Object_assign old dto now"
      by blast
    then show ?thesis
    proof cases
      case 1
      with assms(1) show ?thesis by force
    next
      case 2
      with assms Update show ?thesis
        by (cases "UpdateTodoDto.title dto") (force simp: title_Object_assign)+
    qed
  qed
  with Update show ?thesis
    by (simp add: split_beta) (metis imageE)
next
  case (Remove k)
  with assms show ?thesis
    by (auto simp: split_beta todos_remove)
qed

lemma titles_run:
  assumes "[] \<notin> set (map title (todos s))" and "[] \<notin> set (concat (map supplied_titles cs))"
  shows "[] \<notin> set (map title (todos (fst (run s cs))))"
  using assms
proof (induction cs arbitrary: s)
  case Nil
  then show ?case by simp
next
  case (Cons c cs)
  from Cons.prems have "[] \<notin> set (map title (todos (fst (invoke s c))))"
    by (intro titles_invoke) simp_all
  moreover from Cons.prems have "[] \<notin> set (concat (map supplied_titles cs))"
    by simp
  ultimately have "[] \<notin> set (map title (todos (fst (run (fst (invoke s c)) cs))))"
    by (rule Cons.IH)
  then show ?case
    by (simp add: split_beta)
qed

text \<open>
  The service stores the title it is given: \<open>create\<close> with the empty string makes a
  record whose title is empty, and \<open>update\<close> with the empty string as the patch's title
  empties the title of a record.
\<close>

theorem empty_title_counterexample:
  "map title (TodoService_findAll (fst (TodoService_create TodoService_new
      \<lparr>CreateTodoDto.title = ''''\<rparr> 10 10))) = [''''] \<and>
   map title (TodoService_findAll (fst (TodoService_update
      (fst (TodoService_create TodoService_new \<lparr>CreateTodoDto.title = ''buy milk''\<rparr> 10 10))
      (Fin 1) (patch (Some '''') None) 20))) = ['''']"
  by (simp add: TodoService_new_def create_below_limit TodoService_update_def
      TodoService_findOne_def TodoService_findAll_def Object_assign_def patch_def
      strict_eq_def Let_def)

text \<open>
  Claim C7, as the service has it. \<open>create\<close> and \<open>update\<close> do not check the title. When every
  title that the \<open>Create\<close> calls of a sequence carry, and every title present in the body
  of one of its \<open>Update\<close> calls, is non-empty, every record of the collection has a
  non-empty title after the sequence.
\<close>

theorem titles_nonempty_when_supplied_nonempty:
  assumes "[] \<notin> set (concat (map supplied_titles cs))"
  shows "[] \<notin> set (map title (TodoService_findAll (fst (run TodoService_new cs))))"
proof -
  have "[] \<notin> set (map title (todos TodoService_new))"
    by (simp add: TodoService_new_def)
  from titles_run [OF this assms] show ?thesis
    by (simp add: TodoService_findAll_def)
qed

text \<open>Two creations and a retitling, all with non-empty titles.\<close>

theorem titles_nonempty_when_supplied_nonempty_witness:
  "concat (map supplied_titles
      [Create \<lparr>CreateTodoDto.title = ''buy milk''\<rparr> 10 10,
       Create \<lparr>CreateTodoDto.title = ''walk dog''\<rparr> 20 20,
       Update (Fin 1) (patch (Some ''buy oat milk'') None) 30]) =
     [''buy milk'', ''walk dog'', ''buy oat milk''] \<and>
   map title (TodoService_findAll (fst (run TodoService_new
      [Create \<lparr>CreateTodoDto.title = ''buy milk''\<rparr> 10 10,
       Create \<lparr>CreateTodoDto.title = ''walk dog''\<rparr> 20 20,
       Update (Fin 1) (patch (Some ''buy oat milk'') None) 30]))) = [''buy oat milk'', ''walk dog''] \<and>
   [] \<notin> set [''buy oat milk'', ''walk dog'']"
  using titles_nonempty_when_supplied_nonempty [of
      "[Create \<lparr>CreateTodoDto.title = ''buy milk''\<rparr> 10 10,
       Create \<lparr>CreateTodoDto.title = ''walk dog''\<rparr> 20 20,
       Update (Fin 1) (patch (Some ''buy oat milk'') None) 30]"]
  by (simp add: TodoService_new_def create_below_limit TodoService_update_def
      TodoService_findOne_def TodoService_findAll_def Object_assign_def patch_def
      strict_eq_def Let_def)

subsection \<open>Timestamps\<close>

lemma stamps_ok_mono:
  assumes "stamps_ok (now # later) todo"
  shows "stamps_ok later todo"
    and "own_createdAt dto = None \<Longrightarrow> stamps_ok later (Object_assign todo dto now)"
  using assms
  by (simp_all add: stamps_ok_def createdAt_Object_assign updatedAt_Object_assign)

lemma stamps_invoke:
  assumes "\<forall>todo\<in>set (todos s). stamps_ok (clock_readings (c, snd (invoke s c)) @ later) todo"
    and "sorted (clock_readings (c, snd (invoke s c)) @ later)"
    and "\<not> carries_createdAt c"
  shows "\<forall>todo\<in>set (todos (fst (invoke s c))). stamps_ok later todo"
proof (cases c)
  case (Create dto now1 now2)
  with assms show ?thesis
    by (auto simp: TodoService_create_def Let_def stamps_ok_def)
next
  case FindAll
  with assms show ?thesis by simp
next
  case (FindOne k)
  with assms show ?thesis by simp
next
  case (Update k dto now)
  with assms(3) have dto: "own_createdAt dto = None" by simp
  show ?thesis
  proof (cases "TodoService_findOne s k")
    case None
    with Update assms show ?thesis
      by (simp add: TodoService_update_def)
  next
    case (Some found)
    with Update assms(1) have ok: "\<forall>todo\<in>set (todos s). stamps_ok (now # later) todo"
      by (simp add: TodoService_update_def)
    have "stamps_ok later todo"
      if "todo \<in> set (todos (fst (TodoService_update s k dto now)))" for todo
    proof -
      from that todos_update_subset [of s k dto now]
      consider "todo \<in> set (todos s)"
        | old where "old \<in> set (todos s)" "todo = Object_assign old dto now"
        by blast
      then show ?thesis
        using ok dto by cases (auto intro: stamps_ok_mono)
    qed
    with Update show ?thesis
      by (simp add: split_beta)
  qed
next
  case (Remove k)
  with assms show ?thesis
    by (simp add: split_beta todos_remove)
qed

lemma stamps_run:
  assumes "\<forall>todo\<in>set (todos s).
      stamps_ok (concat (map clock_readings (snd (run s cs)))) todo"
    and "sorted (concat (map clock_readings (snd (run s cs))))"
    and "\<not> list_ex carries_createdAt cs"
  shows "\<forall>todo\<in>set (todos (fst (run s cs))). createdAt todo \<le> updatedAt todo"
  using assms
proof (induction cs arbitrary: s)
  case Nil
  then show ?case by (simp add: stamps_ok_def)
next
  case (Cons c cs)
  let ?s' = "fst (invoke s c)"
  let ?later = "concat (map clock_readings (snd (run ?s' cs)))"
  have readings: "concat (map clock_readings (snd (run s (c # cs)))) =
      clock_readings (c, snd (invoke s c)) @ ?later"
    by (simp add: split_beta)
  from Cons.prems(3) have c: "\<not> carries_createdAt c" and cs: "\<not> list_ex carries_createdAt cs"
    by simp_all
  from Cons.prems(1,2) c have "\<forall>todo\<in>set (todos ?s'). stamps_ok ?later todo"
    unfolding readings by (rule stamps_invoke)
  moreover from Cons.prems(2) have "sorted ?later"
    unfolding readings by (simp add: sorted_append)
  ultimately have "\<forall>todo\<in>set (todos (fst (run ?s' cs))). createdAt todo \<le> updatedAt todo"
    using cs by (rule Cons.IH)
  then show ?case
    by (simp add: split_beta)
qed

text \<open>
  \<^verbatim>\<open>new Date()\<close> reads the wall clock, and nothing in the service compares a reading with
  an earlier one. A record is created at time 10; the clock is set back, and an update
  reads 5: the record has \<open>createdAt = 10\<close> and \<open>updatedAt = 5\<close>. And \<open>createdAt\<close> is not
  out of an update's reach: a record is created at time 10 and updated at time 30 with a
  body whose \<open>createdAt\<close> is 99, and the record has \<open>createdAt = 99\<close> and \<open>updatedAt = 30\<close>.
\<close>

theorem timestamps_counterexample:
  "map createdAt (TodoService_findAll (fst (run TodoService_new
      [Create \<lparr>CreateTodoDto.title = ''buy milk''\<rparr> 10 10,
       Update (Fin 1) (patch None (Some True)) 5]))) = [10] \<and>
   map updatedAt (TodoService_findAll (fst (run TodoService_new
      [Create \<lparr>CreateTodoDto.title = ''buy milk''\<rparr> 10 10,
       Update (Fin 1) (patch None (Some True)) 5]))) = [5] \<and>
   map createdAt (TodoService_findAll (fst (run TodoService_new
      [Create \<lparr>CreateTodoDto.title = ''buy milk''\<rparr> 10 10,
       Update (Fin 1) \<lparr>UpdateTodoDto.title = None, UpdateTodoDto.isCompleted = None,
         own_id = None, own_createdAt = Some 99, own_updatedAt = None\<rparr> 30]))) = [99] \<and>
   map updatedAt (TodoService_findAll (fst (run TodoService_new
      [Create \<lparr>CreateTodoDto.title = ''buy milk''\<rparr> 10 10,
       Update (Fin 1) \<lparr>UpdateTodoDto.title = None, UpdateTodoDto.isCompleted = None,
         own_id = None, own_createdAt = Some 99, own_updatedAt = None\<rparr> 30]))) = [30]"
  by (simp add: TodoService_new_def create_below_limit TodoService_update_def
      TodoService_findOne_def TodoService_findAll_def Object_assign_def patch_def
      strict_eq_def Let_def)

text \<open>
  Claim C8, as the service has it. \<open>create\<close> stamps \<open>createdAt\<close> with its first reading of
  the clock and \<open>updatedAt\<close> with its second; a successful \<open>update\<close> stamps \<open>updatedAt\<close> with
  its reading, and writes \<open>createdAt\<close> when its body has a \<open>createdAt\<close>; nothing else writes
  a timestamp. When the readings that the calls of a sequence take, in the order in which
  they are taken, never decrease, and no update of the sequence has a \<open>createdAt\<close> in its
  body, every record of the collection has \<open>createdAt \<le> updatedAt\<close> after the sequence.
\<close>

theorem createdAt_le_updatedAt_when_clock_monotone:
  assumes "sorted (concat (map clock_readings (snd (run TodoService_new cs))))"
    and "\<not> list_ex carries_createdAt cs"
  shows "list_all (\<lambda>todo. createdAt todo \<le> updatedAt todo)
     (TodoService_findAll (fst (run TodoService_new cs)))"
proof -
  have "\<forall>todo\<in>set (todos TodoService_new).
      stamps_ok (concat (map clock_readings (snd (run TodoService_new cs)))) todo"
    by (simp add: TodoService_new_def)
  from stamps_run [OF this assms] show ?thesis
    by (simp add: TodoService_findAll_def list_all_iff)
qed

text \<open>
  Two creations and an update with increasing readings; the last update finds no record
  and reads no clock.
\<close>

theorem createdAt_le_updatedAt_when_clock_monotone_witness:
  "concat (map clock_readings (snd (run TodoService_new
      [Create \<lparr>CreateTodoDto.title = ''buy milk''\<rparr> 10 11,
       Create \<lparr>CreateTodoDto.title = ''walk dog''\<rparr> 20 20,
       Update (Fin 1) (patch None (Some True)) 30,
       Update (Fin 9) (patch None None) 0])))
     = [10, 11, 20, 20, 30] \<and>
   sorted [10, 11, 20, 20, 30 :: int] \<and>
   list_ex carries_createdAt
      [Create \<lparr>CreateTodoDto.title = ''buy milk''\<rparr> 10 11,
       Create \<lparr>CreateTodoDto.title = ''walk dog''\<rparr> 20 20,
       Update (Fin 1) (patch None (Some True)) 30,
       Update (Fin 9) (patch None None) 0] = False \<and>
   map createdAt (TodoService_findAll (fst (run TodoService_new
      [Create \<lparr>CreateTodoDto.title = ''buy milk''\<rparr> 10 11,
       Create \<lparr>CreateTodoDto.title = ''walk dog''\<rparr> 20 20,
       Update (Fin 1) (patch None (Some True)) 30,
       Update (Fin 9) (patch None None) 0])))
     = [10, 20] \<and>
   map updatedAt (TodoService_findAll (fst (run TodoService_new
      [Create \<lparr>CreateTodoDto.title = ''buy milk''\<rparr> 10 11,
       Create \<lparr>CreateTodoDto.title = ''walk dog''\<rparr> 20 20,
       Update (Fin 1) (patch None (Some True)) 30,
       Update (Fin 9) (patch None None) 0])))
     = [30, 20]"
  using createdAt_le_updatedAt_when_clock_monotone [of
      "[Create \<lparr>CreateTodoDto.title = ''buy milk''\<rparr> 10 11,
       Create \<lparr>CreateTodoDto.title = ''walk dog''\<rparr> 20 20,
       Update (Fin 1) (patch None (Some True)) 30,
       Update (Fin 9) (patch None None) 0]"]
  by (simp add: TodoService_new_def create_below_limit TodoService_update_def
      TodoService_findOne_def TodoService_findAll_def Object_assign_def patch_def
      strict_eq_def Let_def)

subsection \<open>The controller's not-found responses\<close>

lemma no_record_NaN: "\<forall>todo\<in>set (todos s). \<not> strict_eq (todo_id todo) NaN"
  by (simp add: strict_eq_def)

text \<open>
  Claim C9. Whatever number the path segment \<open>ident\<close> converts to: when no record has that
  number as its id, the handlers of \<^verbatim>\<open>GET /todos/:id\<close>, \<^verbatim>\<open>PUT /todos/:id\<close> and
  \<^verbatim>\<open>DELETE /todos/:id\<close> throw \<open>NotFoundException\<close> with the message
  \<^verbatim>\<open>Todo with ID <ident> not found\<close>, the segment as it came, and the service stays as it
  was. A segment that is not numeric converts to \<open>NaN\<close>, which is the id of no record, so it
  gets the same exception and no other kind of error. The status of the exception is 404.
  When a record has the id, the \<^verbatim>\<open>DELETE\<close> handler returns the object whose \<open>message\<close> is
  \<^verbatim>\<open>Todo deleted successfully\<close>.
\<close>

theorem controller_not_found:
  "((\<forall>todo\<in>set (todos s). \<not> strict_eq (todo_id todo) (toNumber ident)) \<longrightarrow>
      TodoController_findOne toNumber s ident =
        Inl (NotFoundException (''Todo with ID '' @ ident @ '' not found'')) \<and>
      TodoController_update toNumber s ident dto now =
        (s, Inl (NotFoundException (''Todo with ID '' @ ident @ '' not found''))) \<and>
      TodoController_remove toNumber s ident =
        (s, Inl (NotFoundException (''Todo with ID '' @ ident @ '' not found'')))) \<and>
   (toNumber ident = NaN \<longrightarrow>
      (\<forall>todo\<in>set (todos s). \<not> strict_eq (todo_id todo) (toNumber ident))) \<and>
   getStatus (NotFoundException (''Todo with ID '' @ ident @ '' not found'')) = 404 \<and>
   ((\<exists>todo\<in>set (todos s). strict_eq (todo_id todo) (toNumber ident)) \<longrightarrow>
      TodoController_remove toNumber s ident =
        (fst (TodoService_remove s (toNumber ident)),
         Inr \<lparr>message = ''Todo deleted successfully''\<rparr>))"
proof -
  have "TodoController_findOne toNumber s ident =
        Inl (NotFoundException (''Todo with ID '' @ ident @ '' not found'')) \<and>
      TodoController_update toNumber s ident dto now =
        (s, Inl (NotFoundException (''Todo with ID '' @ ident @ '' not found''))) \<and>
      TodoController_remove toNumber s ident =
        (s, Inl (NotFoundException (''Todo with ID '' @ ident @ '' not found'')))"
    if none: "\<forall>todo\<in>set (todos s). \<not> strict_eq (todo_id todo) (toNumber ident)"
  proof -
    from none have missing: "TodoService_findOne s (toNumber ident) = None"
      by (simp add: findOne_None_iff)
    then have "TodoService_update s (toNumber ident) dto now = (s, None)"
      by (rule update_None)
    moreover note missing
    moreover from none have "TodoService_remove s (toNumber ident) = (s, False)"
      by (rule remove_not_found)
    ultimately show ?thesis
      by (simp add: TodoController_findOne_def TodoController_update_def
          TodoController_remove_def)
  qed
  moreover have "\<forall>todo\<in>set (todos s). \<not> strict_eq (todo_id todo) (toNumber ident)"
    if "toNumber ident = NaN"
    using that by (simp add: no_record_NaN)
  moreover have "TodoController_remove toNumber s ident =
        (fst (TodoService_remove s (toNumber ident)),
         Inr \<lparr>message = ''Todo deleted successfully''\<rparr>)"
    if "\<exists>todo\<in>set (todos s). strict_eq (todo_id todo) (toNumber ident)"
    using remove_found [OF that] by (simp add: TodoController_remove_def)
  ultimately show ?thesis
    by simp
qed

text \<open>
  Two records, ids 1 and 2. The segment \<^verbatim>\<open>abc\<close> converts to \<open>NaN\<close> and the three handlers
  answer with the exception; the segment \<^verbatim>\<open>1\<close> converts to 1 and \<^verbatim>\<open>DELETE\<close> succeeds.
\<close>

theorem controller_not_found_witness:
  "map todo_id (todos (fst (run TodoService_new
      [Create \<lparr>CreateTodoDto.title = ''buy milk''\<rparr> 10 10,
       Create \<lparr>CreateTodoDto.title = ''walk dog''\<rparr> 20 20]))) = [Fin 1, Fin 2] \<and>
   (\<lambda>x. if x = ''1'' then Fin 1 else NaN) ''abc'' = NaN \<and>
   TodoController_findOne (\<lambda>x. if x = ''1'' then Fin 1 else NaN) (fst (run TodoService_new
      [Create \<lparr>CreateTodoDto.title = ''buy milk''\<rparr> 10 10,
       Create \<lparr>CreateTodoDto.title = ''walk dog''\<rparr> 20 20])) ''abc'' = Inl (NotFoundException ''Todo with ID abc not found'') \<and>
   TodoController_update (\<lambda>x. if x = ''1'' then Fin 1 else NaN) (fst (run TodoService_new
      [Create \<lparr>CreateTodoDto.title = ''buy milk''\<rparr> 10 10,
       Create \<lparr>CreateTodoDto.title = ''walk dog''\<rparr> 20 20])) ''abc'' (patch (Some ''x'') None) 30 =
     ((fst (run TodoService_new
      [Create \<lparr>CreateTodoDto.title = ''buy milk''\<rparr> 10 10,
       Create \<lparr>CreateTodoDto.title = ''walk dog''\<rparr> 20 20])), Inl (NotFoundException ''Todo with ID abc not found'')) \<and>
   TodoController_remove (\<lambda>x. if x = ''1'' then Fin 1 else NaN) (fst (run TodoService_new
      [Create \<lparr>CreateTodoDto.title = ''buy milk''\<rparr> 10 10,
       Create \<lparr>CreateTodoDto.title = ''walk dog''\<rparr> 20 20])) ''abc'' =
     ((fst (run TodoService_new
      [Create \<lparr>CreateTodoDto.title = ''buy milk''\<rparr> 10 10,
       Create \<lparr>CreateTodoDto.title = ''walk dog''\<rparr> 20 20])), Inl (NotFoundException ''Todo with ID abc not found'')) \<and>
   getStatus (NotFoundException ''Todo with ID abc not found'') = 404 \<and>
   TodoController_remove (\<lambda>x. if x = ''1'' then Fin 1 else NaN) (fst (run TodoService_new
      [Create \<lparr>CreateTodoDto.title = ''buy milk''\<rparr> 10 10,
       Create \<lparr>CreateTodoDto.title = ''walk dog''\<rparr> 20 20])) ''1'' =
     (\<lparr>todos = [\<lparr>todo_id = Fin 2, title = ''walk dog'', isCompleted = False,
          createdAt = 20, updatedAt = 20\<rparr>], idCounter = Fin 3\<rparr>,
      Inr \<lparr>message = ''Todo deleted successfully''\<rparr>)"
  using controller_not_found [where s = "(fst (run TodoService_new
      [Create \<lparr>CreateTodoDto.title = ''buy milk''\<rparr> 10 10,
       Create \<lparr>CreateTodoDto.title = ''walk dog''\<rparr> 20 20]))" and toNumber = "(\<lambda>x. if x = ''1'' then Fin 1 else NaN)" and ident = "''abc''"
      and dto = "patch (Some ''x'') None" and now = 30]
    controller_not_found [where s = "(fst (run TodoService_new
      [Create \<lparr>CreateTodoDto.title = ''buy milk''\<rparr> 10 10,
       Create \<lparr>CreateTodoDto.title = ''walk dog''\<rparr> 20 20]))" and toNumber = "(\<lambda>x. if x = ''1'' then Fin 1 else NaN)" and ident = "''1''"]
  by (simp add: TodoService_new_def create_below_limit TodoService_remove_def
      TodoService_update_def TodoService_findOne_def TodoController_findOne_def
      TodoController_update_def TodoController_remove_def patch_def strict_eq_def Let_def)

end
